theory Spec2Isabelle
  imports Main
begin

section \<open>RESP2 codec (src/proto/resp.cpp)\<close>

text \<open>
  Byte strings are \<^typ>\<open>string\<close> (lists of 8-bit characters). Buffer offsets and lengths
  (\<open>std::size_t\<close>) are natural numbers; \<open>long long\<close> values are integers with the
  overflow test of the source written out against \<open>LLONG_MAX\<close>.
\<close>

definition CR :: char where "CR = char_of (13::nat)"
definition LF :: char where "LF = char_of (10::nat)"
definition CRLF :: string where "CRLF = [CR, LF]"

definition LLONG_MAX :: int where "LLONG_MAX = 2 ^ 63 - 1"
definition LLONG_MIN :: int where "LLONG_MIN = - (2 ^ 63)"

text \<open>
  \<open>parse_ll\<close>: the digit loop, then the sign. The result \<open>None\<close> is the source's
  \<open>ok = false\<close>. A byte is a digit when it lies between \<open>'0'\<close> (48) and \<open>'9'\<close> (57).
\<close>

fun parse_ll_loop :: "int \<Rightarrow> string \<Rightarrow> int option" where
  "parse_ll_loop v [] = Some v"
| "parse_ll_loop v (c # cs) =
     (if (of_char c :: nat) < 48 \<or> (of_char c :: nat) > 57 then None
      else let d = int (of_char c) - 48 in
        if v > (LLONG_MAX - d) div 10 then None
        else parse_ll_loop (v * 10 + d) cs)"

definition parse_ll :: "string \<Rightarrow> int option" where
  "parse_ll s =
     (if s = [] then None
      else if hd s = CHR ''-'' then map_option uminus (parse_ll_loop 0 (tl s))
      else parse_ll_loop 0 s)"

text \<open>
  \<open>read_line\<close>: the first index \<open>i \<ge> off\<close> with \<open>i + 1 < len\<close>, \<open>data[i] = CR\<close> and
  \<open>data[i + 1] = LF\<close>. \<open>find_crlf\<close> is the loop; its second argument is the loop index.
\<close>

fun find_crlf :: "string \<Rightarrow> nat \<Rightarrow> nat option" where
  "find_crlf (a # b # xs) i = (if a = CR \<and> b = LF then Some i else find_crlf (b # xs) (Suc i))"
| "find_crlf _ i = None"

definition read_line :: "string \<Rightarrow> nat \<Rightarrow> nat option" where
  "read_line data off = find_crlf (drop off data) off"

record Line =
  L_start :: nat
  L_end :: nat
  L_next :: nat

text \<open>\<open>get_line\<close> returns \<open>None\<close> where the source returns a \<open>Line\<close> with \<open>ok = false\<close>.\<close>

definition get_line :: "string \<Rightarrow> nat \<Rightarrow> Line option" where
  "get_line data off =
     (case read_line data off of
        None \<Rightarrow> None
      | Some e \<Rightarrow> Some \<lparr>L_start = off, L_end = e, L_next = e + 2\<rparr>)"

datatype RespArray = RespArray (args: "string list")

record RespParseResult =
  arr :: "RespArray option"
  error :: string
  consumed :: nat

definition need_more :: RespParseResult where
  "need_more = \<lparr>arr = None, error = [], consumed = 0\<rparr>"

definition proto_error :: "string \<Rightarrow> nat \<Rightarrow> RespParseResult" where
  "proto_error msg n = \<lparr>arr = None, error = msg, consumed = n\<rparr>"

text \<open>
  The body of the \<open>for\<close> loop of \<open>parse_resp\<close>: the first argument is the buffer, the
  second the number of bulks still to read (\<open>n - i\<close>), then \<open>off\<close> and the arguments
  collected so far. The sum \<open>off + blen + 2\<close> is computed in \<open>std::size_t\<close> (64 bits).
  \<open>arr.args.reserve(n)\<close> only allocates; a failing allocation is not part of the
  model.
\<close>

fun parse_bulks :: "string \<Rightarrow> nat \<Rightarrow> nat \<Rightarrow> string list \<Rightarrow> RespParseResult" where
  "parse_bulks data 0 off acc = \<lparr>arr = Some (RespArray acc), error = [], consumed = off\<rparr>"
| "parse_bulks data (Suc k) off acc =
     (if off \<ge> length data then need_more
      else if data ! off \<noteq> CHR ''$'' then proto_error ''protocol error: expected bulk string'' off
      else case get_line data (off + 1) of
        None \<Rightarrow> need_more
      | Some L2 \<Rightarrow>
         (case parse_ll (take (L_end L2 - (off + 1)) (drop (off + 1) data)) of
            None \<Rightarrow> proto_error ''protocol error: bad bulk length'' (L_next L2)
          | Some blen \<Rightarrow>
             (let off1 = L_next L2 in
              if blen = - 1 then parse_bulks data k off1 (acc @ [[]])
              else if blen < 0 then proto_error ''protocol error: negative bulk length'' off1
              else if (off1 + nat blen + 2) mod 2 ^ 64 > length data then need_more
              else let arg = take (nat blen) (drop off1 data); off2 = off1 + nat blen in
                if off2 + 1 \<ge> length data \<or> data ! off2 \<noteq> CR \<or> data ! (off2 + 1) \<noteq> LF
                then proto_error ''protocol error: bulk missing CRLF'' off2
                else parse_bulks data k (off2 + 2) (acc @ [arg]))))"

definition parse_resp :: "string \<Rightarrow> RespParseResult" where
  "parse_resp data =
     (if length data = 0 then need_more
      else if data ! 0 \<noteq> CHR ''*'' then proto_error ''protocol error: expected array'' 0
      else case get_line data 1 of
        None \<Rightarrow> need_more
      | Some L \<Rightarrow>
         (case parse_ll (take (L_end L - 1) (drop 1 data)) of
            None \<Rightarrow> proto_error ''protocol error: bad array length'' (L_next L)
          | Some n \<Rightarrow>
             if n < 0 then proto_error ''protocol error: bad array length'' (L_next L)
             else parse_bulks data (nat n) (L_next L) []))"

subsection \<open>Emitters\<close>

text \<open>
  \<open>dec_digits\<close> is what \<open>operator<<\<close> prints for an unsigned value: its decimal digits,
  most significant first, \<open>0\<close> for zero. \<open>show_ll\<close> is the same for a \<open>long long\<close>.
\<close>

fun dec_digits :: "nat \<Rightarrow> string" where
  "dec_digits n =
     (if n < 10 then [char_of (48 + n)]
      else dec_digits (n div 10) @ [char_of (48 + n mod 10)])"

declare dec_digits.simps [simp del]

definition show_ll :: "int \<Rightarrow> string" where
  "show_ll v = (if v < 0 then CHR ''-'' # dec_digits (nat (- v)) else dec_digits (nat v))"

definition resp_simple :: "string \<Rightarrow> string" where
  "resp_simple s = ''+'' @ s @ CRLF"

definition resp_error :: "string \<Rightarrow> string" where
  "resp_error s = ''-ERR '' @ s @ CRLF"

definition resp_bulk :: "string \<Rightarrow> string" where
  "resp_bulk s = ''$'' @ dec_digits (length s) @ CRLF @ s @ CRLF"

definition resp_nil :: string where
  "resp_nil = ''$-1'' @ CRLF"

definition resp_int :: "int \<Rightarrow> string" where
  "resp_int v = '':'' @ show_ll v @ CRLF"

definition resp_array :: "string list \<Rightarrow> bool \<Rightarrow> string" where
  "resp_array items as_bulk =
     ''*'' @ dec_digits (length items) @ CRLF @
     concat (map (\<lambda>it. if as_bulk then ''$'' @ dec_digits (length it) @ CRLF @ it @ CRLF else it) items)"


section \<open>Shard (src/core/store.cpp)\<close>

text \<open>
  A \<open>steady_clock::time_point\<close> is a count of clock ticks; the tick is taken to be one
  nanosecond (the period of \<open>steady_clock\<close> in libstdc++, libc++ and the MSVC library).
  Arithmetic on time points is modelled on unbounded integers (signed overflow of the
  64-bit representation is undefined behaviour in the source and not part of the model).

  The three maps of a shard are \<open>map_\<close> (here \<open>str_map\<close>), \<open>ttl_\<close> (\<open>ttl_map\<close>) and
  \<open>hmap_\<close> (\<open>hash_map\<close>). The fields of one hash are kept as an association list with
  distinct keys: \<open>unordered_map\<close> leaves the iteration order unspecified, and the list
  fixes one order (insertion order) for \<open>hgetall\<close>.

  Every operation takes the shard first and returns the updated shard; an operation that
  reads \<open>steady_clock::now()\<close> itself takes that reading as its last argument \<open>now\<close>.
  The observers that run under the shared lock return the shard as they found it.
\<close>

type_synonym time_point = int

datatype ValueType = VT_None | VT_String | VT_Hash

record Shard =
  str_map :: "string \<rightharpoonup> string"
  ttl_map :: "string \<rightharpoonup> time_point"
  hash_map :: "string \<rightharpoonup> (string \<times> string) list"

definition empty_shard :: Shard where
  "empty_shard = \<lparr>str_map = Map.empty, ttl_map = Map.empty, hash_map = Map.empty\<rparr>"

definition is_expired_unlocked :: "Shard \<Rightarrow> string \<Rightarrow> time_point \<Rightarrow> bool" where
  "is_expired_unlocked s k now =
     (case ttl_map s k of None \<Rightarrow> False | Some tp \<Rightarrow> now \<ge> tp)"

definition get :: "Shard \<Rightarrow> string \<Rightarrow> time_point \<Rightarrow> string option \<times> Shard" where
  "get s k now =
     (if is_expired_unlocked s k now
      then (None, s\<lparr>str_map := (str_map s)(k := None),
                    ttl_map := (ttl_map s)(k := None),
                    hash_map := (hash_map s)(k := None)\<rparr>)
      else (str_map s k, s))"

definition set_shard :: "Shard \<Rightarrow> string \<Rightarrow> string \<Rightarrow> time_point \<Rightarrow> Shard" where
  "set_shard s k v now =
     (let s1 = (if is_expired_unlocked s k now
                then s\<lparr>ttl_map := (ttl_map s)(k := None), hash_map := (hash_map s)(k := None)\<rparr>
                else s)
      in s1\<lparr>str_map := (str_map s1)(k \<mapsto> v), hash_map := (hash_map s1)(k := None)\<rparr>)"

definition del :: "Shard \<Rightarrow> string \<Rightarrow> bool \<times> Shard" where
  "del s k =
     (let sb = (str_map s k \<noteq> None); h = (hash_map s k \<noteq> None)
      in (sb \<or> h, s\<lparr>ttl_map := (ttl_map s)(k := None),
                       str_map := (str_map s)(k := None),
                       hash_map := (hash_map s)(k := None)\<rparr>))"

definition set_expire :: "Shard \<Rightarrow> string \<Rightarrow> time_point \<Rightarrow> Shard" where
  "set_expire s k tp =
     (if str_map s k \<noteq> None \<or> hash_map s k \<noteq> None
      then s\<lparr>ttl_map := (ttl_map s)(k \<mapsto> tp)\<rparr>
      else s)"

text \<open>
  \<open>cpp_div\<close> is the integer division of the source language, truncating towards zero;
  \<open>duration_cast<milliseconds>\<close> of a tick count divides by the ticks of a millisecond.
\<close>

definition cpp_div :: "int \<Rightarrow> int \<Rightarrow> int" where
  "cpp_div a b = (if (a < 0) = (b < 0) then \<bar>a\<bar> div \<bar>b\<bar> else - (\<bar>a\<bar> div \<bar>b\<bar>))"

definition duration_cast_ms :: "int \<Rightarrow> int" where
  "duration_cast_ms d = cpp_div d 1000000"

definition ttl_ms :: "Shard \<Rightarrow> string \<Rightarrow> time_point \<Rightarrow> int \<times> Shard" where
  "ttl_ms s k now =
     (let exists = (str_map s k \<noteq> None \<or> hash_map s k \<noteq> None)
      in if \<not> exists then (- 2, s)
         else case ttl_map s k of
                None \<Rightarrow> (- 1, s)
              | Some tp \<Rightarrow>
                  (let remain = duration_cast_ms (tp - now)
                   in if remain \<le> 0 then (- 2, s) else (remain, s)))"

definition clear_expire :: "Shard \<Rightarrow> string \<Rightarrow> Shard" where
  "clear_expire s k = s\<lparr>ttl_map := (ttl_map s)(k := None)\<rparr>"

text \<open>
  \<open>sweep\<close> collects the keys of \<open>ttl_\<close> whose deadline is not after \<open>now\<close> and erases each
  from the three maps.
\<close>

definition sweep :: "Shard \<Rightarrow> time_point \<Rightarrow> Shard" where
  "sweep s now =
     \<lparr>str_map = (\<lambda>k. if is_expired_unlocked s k now then None else str_map s k),
      ttl_map = (\<lambda>k. if is_expired_unlocked s k now then None else ttl_map s k),
      hash_map = (\<lambda>k. if is_expired_unlocked s k now then None else hash_map s k)\<rparr>"

text \<open>
  Fields of one hash: \<open>hm.find(field)\<close> is \<open>map_of hm field\<close>; \<open>hm_put\<close> is the
  \<open>emplace\<close> of a new field or the assignment to an existing one; \<open>hm_erase\<close> is \<open>erase\<close>.
\<close>

fun hm_put :: "string \<Rightarrow> string \<Rightarrow> (string \<times> string) list \<Rightarrow> (string \<times> string) list" where
  "hm_put f v [] = [(f, v)]"
| "hm_put f v (p # ps) = (if fst p = f then (f, v) # ps else p # hm_put f v ps)"

fun hm_erase :: "string \<Rightarrow> (string \<times> string) list \<Rightarrow> (string \<times> string) list" where
  "hm_erase f [] = []"
| "hm_erase f (p # ps) = (if fst p = f then hm_erase f ps else p # hm_erase f ps)"

definition hset :: "Shard \<Rightarrow> string \<Rightarrow> string \<Rightarrow> string \<Rightarrow> time_point \<Rightarrow> int \<times> Shard" where
  "hset s key field val now =
     (let s1 = (if is_expired_unlocked s key now
                then s\<lparr>ttl_map := (ttl_map s)(key := None),
                       str_map := (str_map s)(key := None),
                       hash_map := (hash_map s)(key := None)\<rparr>
                else s);
          hm = (case hash_map s1 key of None \<Rightarrow> [] | Some h \<Rightarrow> h)
      in (if map_of hm field = None then 1 else 0,
          s1\<lparr>hash_map := (hash_map s1)(key \<mapsto> hm_put field val hm)\<rparr>))"

definition hget :: "Shard \<Rightarrow> string \<Rightarrow> string \<Rightarrow> time_point \<Rightarrow> string option \<times> Shard" where
  "hget s key field now =
     (if is_expired_unlocked s key now then (None, s)
      else case hash_map s key of
             None \<Rightarrow> (None, s)
           | Some hm \<Rightarrow> (map_of hm field, s))"

definition hdel :: "Shard \<Rightarrow> string \<Rightarrow> string \<Rightarrow> time_point \<Rightarrow> int \<times> Shard" where
  "hdel s key field now =
     (if is_expired_unlocked s key now
      then (0, s\<lparr>ttl_map := (ttl_map s)(key := None),
                 str_map := (str_map s)(key := None),
                 hash_map := (hash_map s)(key := None)\<rparr>)
      else case hash_map s key of
             None \<Rightarrow> (0, s)
           | Some hm \<Rightarrow>
               (let removed = (if map_of hm field \<noteq> None then 1 else 0);
                    hm1 = hm_erase field hm
                in if hm1 = []
                   then (removed, s\<lparr>hash_map := (hash_map s)(key := None)\<rparr>)
                   else (removed, s\<lparr>hash_map := (hash_map s)(key \<mapsto> hm1)\<rparr>)))"

definition hexists :: "Shard \<Rightarrow> string \<Rightarrow> string \<Rightarrow> time_point \<Rightarrow> int \<times> Shard" where
  "hexists s key field now =
     (if is_expired_unlocked s key now then (0, s)
      else case hash_map s key of
             None \<Rightarrow> (0, s)
           | Some hm \<Rightarrow> (if map_of hm field \<noteq> None then 1 else 0, s))"

definition hlen :: "Shard \<Rightarrow> string \<Rightarrow> time_point \<Rightarrow> int \<times> Shard" where
  "hlen s key now =
     (if is_expired_unlocked s key now then (0, s)
      else case hash_map s key of
             None \<Rightarrow> (0, s)
           | Some hm \<Rightarrow> (int (length hm), s))"

definition hgetall :: "Shard \<Rightarrow> string \<Rightarrow> time_point \<Rightarrow> string list \<times> Shard" where
  "hgetall s key now =
     (if is_expired_unlocked s key now then ([], s)
      else case hash_map s key of
             None \<Rightarrow> ([], s)
           | Some hm \<Rightarrow> (concat (map (\<lambda>(f, v). [f, v]) hm), s))"

definition type_of :: "Shard \<Rightarrow> string \<Rightarrow> time_point \<Rightarrow> ValueType \<times> Shard" where
  "type_of s key now =
     (if is_expired_unlocked s key now
      then (VT_None, s\<lparr>str_map := (str_map s)(key := None),
                       hash_map := (hash_map s)(key := None),
                       ttl_map := (ttl_map s)(key := None)\<rparr>)
      else if str_map s key \<noteq> None then (VT_String, s)
      else if hash_map s key \<noteq> None then (VT_Hash, s)
      else (VT_None, s))"


section \<open>Store (src/core/store.cpp)\<close>

text \<open>
  \<open>std::hash<std::string>\<close> is implementation-defined: it is a parameter \<open>H\<close> of
  everything that resolves a key to its shard. \<open>put_shard\<close> writes a shard back at the
  index \<open>shard_for\<close> read it from (the source mutates through the returned reference).
\<close>

type_synonym hashfn = "string \<Rightarrow> nat"

record Store =
  shards :: "Shard list"

definition Store_init :: "nat \<Rightarrow> Store" where
  "Store_init n = \<lparr>shards = replicate (if n = 0 then 1 else n) empty_shard\<rparr>"

definition shard_index :: "hashfn \<Rightarrow> Store \<Rightarrow> string \<Rightarrow> nat" where
  "shard_index H st key = H key mod length (shards st)"

definition shard_for :: "hashfn \<Rightarrow> Store \<Rightarrow> string \<Rightarrow> Shard" where
  "shard_for H st key = shards st ! shard_index H st key"

definition put_shard :: "hashfn \<Rightarrow> Store \<Rightarrow> string \<Rightarrow> Shard \<Rightarrow> Store" where
  "put_shard H st key s = st\<lparr>shards := (shards st)[shard_index H st key := s]\<rparr>"

definition sweep_all_at :: "Store \<Rightarrow> time_point \<Rightarrow> Store" where
  "sweep_all_at st now = st\<lparr>shards := map (\<lambda>s. sweep s now) (shards st)\<rparr>"

section \<open>Router (src/core/router.cpp)\<close>

text \<open>
  A handler runs against the store and the clock. The field \<open>clock\<close> holds the values
  that the successive calls of \<open>steady_clock::now()\<close> will return; \<open>steady_now\<close> takes the
  next one. \<open>on_shard\<close> runs a shard operation on the shard of a key; \<open>on_shard_now\<close> does
  the same for an operation that reads the clock itself.
\<close>

record Server =
  store :: Store
  clock :: "nat \<Rightarrow> time_point"

definition steady_now :: "Server \<Rightarrow> time_point \<times> Server" where
  "steady_now w = (clock w 0, w\<lparr>clock := (\<lambda>i. clock w (Suc i))\<rparr>)"

definition on_shard :: "hashfn \<Rightarrow> string \<Rightarrow> (Shard \<Rightarrow> 'a \<times> Shard) \<Rightarrow> Server \<Rightarrow> 'a \<times> Server" where
  "on_shard H key f w =
     (let (r, s1) = f (shard_for H (store w) key)
      in (r, w\<lparr>store := put_shard H (store w) key s1\<rparr>))"

definition on_shard_now ::
  "hashfn \<Rightarrow> string \<Rightarrow> (Shard \<Rightarrow> time_point \<Rightarrow> 'a \<times> Shard) \<Rightarrow> Server \<Rightarrow> 'a \<times> Server" where
  "on_shard_now H key f w =
     (let (now, w1) = steady_now w in on_shard H key (\<lambda>s. f s now) w1)"

definition sweep_all :: "Server \<Rightarrow> Server" where
  "sweep_all w = (let (now, w1) = steady_now w in w1\<lparr>store := sweep_all_at (store w1) now\<rparr>)"

text \<open>\<open>std::toupper\<close> in the C locale, and \<open>upper\<close>.\<close>

definition toupper :: "char \<Rightarrow> char" where
  "toupper c =
     (if 97 \<le> (of_char c :: nat) \<and> (of_char c :: nat) \<le> 122
      then char_of ((of_char c :: nat) - 32) else c)"

definition upper :: "string \<Rightarrow> string" where
  "upper s = map toupper s"

text \<open>
  \<open>std::stoll\<close>: leading white space is skipped, then an optional sign and the longest
  run of decimal digits are read; what follows is ignored. \<open>None\<close> stands for both
  exceptions (\<open>invalid_argument\<close> when there is no digit, \<open>out_of_range\<close> when the value
  does not fit a \<open>long long\<close>): every caller catches them with \<open>catch (...)\<close>.
\<close>

definition isspace :: "char \<Rightarrow> bool" where
  "isspace c = ((of_char c :: nat) \<in> {9, 10, 11, 12, 13, 32})"

definition isdigit :: "char \<Rightarrow> bool" where
  "isdigit c = (48 \<le> (of_char c :: nat) \<and> (of_char c :: nat) \<le> 57)"

definition digits_val :: "string \<Rightarrow> int" where
  "digits_val ds = foldl (\<lambda>v c. v * 10 + (int (of_char c) - 48)) 0 ds"

definition stoll :: "string \<Rightarrow> int option" where
  "stoll str =
     (let s0 = dropWhile isspace str;
          neg = (s0 \<noteq> [] \<and> hd s0 = CHR ''-'');
          s1 = (if s0 \<noteq> [] \<and> (hd s0 = CHR ''-'' \<or> hd s0 = CHR ''+'') then tl s0 else s0);
          ds = takeWhile isdigit s1
      in if ds = [] then None
         else let v = (if neg then - digits_val ds else digits_val ds)
              in if v < LLONG_MIN \<or> v > LLONG_MAX then None else Some v)"

definition sq :: "string \<Rightarrow> string" where
  "sq s = [CHR 0x27] @ s @ [CHR 0x27]"

definition resp_wrongtype :: string where
  "resp_wrongtype = ''-WRONGTYPE Operation against a key holding the wrong kind of value'' @ CRLF"

definition not_an_integer :: string where
  "not_an_integer = ''value is not an integer or out of range''"

type_synonym handler = "string list \<Rightarrow> Server \<Rightarrow> string \<times> Server"

definition h_PING :: handler where
  "h_PING a w = (if length a > 1 then (resp_bulk (a ! 1), w) else (resp_simple ''PONG'', w))"

definition h_ECHO :: handler where
  "h_ECHO a w =
     (if length a < 2 then (resp_error (''wrong #args for '' @ sq ''echo''), w)
      else (resp_bulk (a ! 1), w))"

text \<open>The first handler registered under \<open>SET\<close>; the later registration replaces it.\<close>

definition h_SET_first :: "hashfn \<Rightarrow> handler" where
  "h_SET_first H a w =
     (if length a < 3 then (resp_error (''wrong #args for '' @ sq ''set''), w)
      else let (u, w1) = on_shard_now H (a ! 1) (\<lambda>s now. ((), set_shard s (a ! 1) (a ! 2) now)) w
           in (resp_simple ''OK'', w1))"

definition h_GET :: "hashfn \<Rightarrow> handler" where
  "h_GET H a w =
     (if length a < 2 then (resp_error (''wrong #args for '' @ sq ''get''), w)
      else let key = a ! 1;
               (now, w1) = steady_now w;
               (t, w2) = on_shard H key (\<lambda>s. type_of s key now) w1
           in if t = VT_Hash then (resp_wrongtype, w2)
              else let (v, w3) = on_shard_now H key (\<lambda>s now. get s key now) w2
                   in case v of None \<Rightarrow> (resp_nil, w3) | Some x \<Rightarrow> (resp_bulk x, w3))"

definition h_DEL :: "hashfn \<Rightarrow> handler" where
  "h_DEL H a w =
     (if length a < 2 then (resp_error (''wrong #args for '' @ sq ''del''), w)
      else let (ok, w1) = on_shard H (a ! 1) (\<lambda>s. del s (a ! 1)) w
           in (resp_int (if ok then 1 else 0), w1))"

definition h_EXPIRE :: "hashfn \<Rightarrow> handler" where
  "h_EXPIRE H a w =
     (if length a < 3 then (resp_error (''wrong number of arguments for '' @ sq ''expire''), w)
      else let key = a ! 1 in
        case stoll (a ! 2) of
          None \<Rightarrow> (resp_error not_an_integer, w)
        | Some sec0 \<Rightarrow>
            (let sec = (if sec0 < 0 then 0 else sec0);
                 (cur, w1) = on_shard_now H key (\<lambda>s now. get s key now) w
             in if cur = None then (resp_int 0, w1)
                else let (now, w2) = steady_now w1;
                         tp = now + sec * 1000000000;
                         (u, w3) = on_shard H key (\<lambda>s. ((), set_expire s key tp)) w2
                     in (resp_int 1, w3)))"

definition h_TTL :: "hashfn \<Rightarrow> handler" where
  "h_TTL H a w =
     (if length a < 2 then (resp_error (''wrong number of arguments for '' @ sq ''ttl''), w)
      else let key = a ! 1;
               (now, w1) = steady_now w;
               (ms, w2) = on_shard H key (\<lambda>s. ttl_ms s key now) w1
           in if ms = - 2 then (resp_int (- 2), w2)
              else if ms = - 1 then (resp_int (- 1), w2)
              else (resp_int (cpp_div (ms + 999) 1000), w2))"

text \<open>
  The option block of the operative \<open>SET\<close> handler: \<open>Inl\<close> is the error reply it returns,
  \<open>Inr\<close> the value of \<open>ttl_ms\<close> (\<open>- 1\<close> when no option is given).
\<close>

definition set_options :: "string list \<Rightarrow> string + int" where
  "set_options a =
     (if length a \<ge> 5 then
        (let opt = upper (a ! 3) in
         if opt = ''EX'' then
           (case stoll (a ! 4) of
              None \<Rightarrow> Inl (resp_error not_an_integer)
            | Some n \<Rightarrow> Inr (if n * 1000 < 0 then 0 else n * 1000))
         else if opt = ''PX'' then
           (case stoll (a ! 4) of
              None \<Rightarrow> Inl (resp_error not_an_integer)
            | Some n \<Rightarrow> Inr (if n < 0 then 0 else n))
         else Inl (resp_error ''syntax error''))
      else if length a \<noteq> 3 then Inl (resp_error ''syntax error'')
      else Inr (- 1))"

definition h_SET :: "hashfn \<Rightarrow> handler" where
  "h_SET H a w =
     (if length a < 3 then (resp_error (''wrong #args for '' @ sq ''set''), w)
      else let key = a ! 1; val = a ! 2 in
        case set_options a of
          Inl e \<Rightarrow> (e, w)
        | Inr ttl \<Rightarrow>
            (let (u, w1) = on_shard_now H key (\<lambda>s now. ((), set_shard s key val now)) w
             in if ttl \<ge> 0
                then let (now, w2) = steady_now w1;
                         tp = now + ttl * 1000000;
                         (u, w3) = on_shard H key (\<lambda>s. ((), set_expire s key tp)) w2
                     in (resp_simple ''OK'', w3)
                else (resp_simple ''OK'', w1)))"

definition h_PEXPIRE :: "hashfn \<Rightarrow> handler" where
  "h_PEXPIRE H a w =
     (if length a < 3 then (resp_error (''wrong #args for '' @ sq ''pexpire''), w)
      else let key = a ! 1 in
        case stoll (a ! 2) of
          None \<Rightarrow> (resp_error not_an_integer, w)
        | Some ms0 \<Rightarrow>
            (let ms = (if ms0 < 0 then 0 else ms0);
                 (cur, w1) = on_shard_now H key (\<lambda>s now. get s key now) w
             in if cur = None then (resp_int 0, w1)
                else let (now, w2) = steady_now w1;
                         (u, w3) = on_shard H key (\<lambda>s. ((), set_expire s key (now + ms * 1000000))) w2
                     in (resp_int 1, w3)))"

definition h_PERSIST :: "hashfn \<Rightarrow> handler" where
  "h_PERSIST H a w =
     (if length a < 2 then (resp_error (''wrong #args for '' @ sq ''persist''), w)
      else let key = a ! 1;
               (v, w1) = on_shard_now H key (\<lambda>s now. get s key now) w
           in if v = None then (resp_int 0, w1)
              else let (u, w2) = on_shard H key (\<lambda>s. ((), clear_expire s key)) w1
                   in (resp_int 1, w2))"

text \<open>The loop of \<open>EXISTS\<close> over \<open>a[1], a[2], ...\<close>, with the running \<open>count\<close>.\<close>

fun exists_loop :: "hashfn \<Rightarrow> time_point \<Rightarrow> string list \<Rightarrow> int \<Rightarrow> Server \<Rightarrow> int \<times> Server" where
  "exists_loop H now [] count w = (count, w)"
| "exists_loop H now (key # ks) count w =
     (let (t, w1) = on_shard H key (\<lambda>s. type_of s key now) w
      in exists_loop H now ks (if t \<noteq> VT_None then count + 1 else count) w1)"

definition h_EXISTS :: "hashfn \<Rightarrow> handler" where
  "h_EXISTS H a w =
     (if length a < 2 then (resp_error (''wrong #args for '' @ sq ''exists''), w)
      else let (now, w1) = steady_now w;
               (count, w2) = exists_loop H now (drop 1 a) 0 w1
           in (resp_int count, w2))"

text \<open>The loop of \<open>HSET\<close> over the field/value pairs \<open>a[2], a[3], ...\<close>.\<close>

fun hset_loop :: "hashfn \<Rightarrow> string \<Rightarrow> string list \<Rightarrow> int \<Rightarrow> Server \<Rightarrow> int \<times> Server" where
  "hset_loop H key (f # v # rest) added w =
     (let (r, w1) = on_shard_now H key (\<lambda>s now. hset s key f v now) w
      in hset_loop H key rest (added + r) w1)"
| "hset_loop H key rest added w = (added, w)"

definition h_HSET :: "hashfn \<Rightarrow> handler" where
  "h_HSET H a w =
     (if length a < 4 \<or> (length a - 2) mod 2 \<noteq> 0
      then (resp_error (''wrong #args for '' @ sq ''hset''), w)
      else let key = a ! 1;
               (now, w1) = steady_now w;
               (t, w2) = on_shard H key (\<lambda>s. type_of s key now) w1
           in if t = VT_String then (resp_wrongtype, w2)
              else let (added, w3) = hset_loop H key (drop 2 a) 0 w2
                   in (resp_int added, w3))"

definition h_HGET :: "hashfn \<Rightarrow> handler" where
  "h_HGET H a w =
     (if length a < 3 then (resp_error (''wrong #args for '' @ sq ''hget''), w)
      else let key = a ! 1; field = a ! 2;
               (now, w1) = steady_now w;
               (t, w2) = on_shard H key (\<lambda>s. type_of s key now) w1
           in if t = VT_String then (resp_wrongtype, w2)
              else let (v, w3) = on_shard_now H key (\<lambda>s now. hget s key field now) w2
                   in case v of None \<Rightarrow> (resp_nil, w3) | Some x \<Rightarrow> (resp_bulk x, w3))"

definition h_HDEL :: "hashfn \<Rightarrow> handler" where
  "h_HDEL H a w =
     (if length a < 3 then (resp_error (''wrong #args for '' @ sq ''hdel''), w)
      else let key = a ! 1; field = a ! 2;
               (now, w1) = steady_now w;
               (t, w2) = on_shard H key (\<lambda>s. type_of s key now) w1
           in if t = VT_String then (resp_wrongtype, w2)
              else let (removed, w3) = on_shard_now H key (\<lambda>s now. hdel s key field now) w2
                   in (resp_int removed, w3))"

definition h_HEXISTS :: "hashfn \<Rightarrow> handler" where
  "h_HEXISTS H a w =
     (if length a < 3 then (resp_error (''wrong #args for '' @ sq ''hexists''), w)
      else let key = a ! 1; field = a ! 2;
               (now, w1) = steady_now w;
               (t, w2) = on_shard H key (\<lambda>s. type_of s key now) w1
           in if t = VT_String then (resp_wrongtype, w2)
              else let (ex, w3) = on_shard_now H key (\<lambda>s now. hexists s key field now) w2
                   in (resp_int ex, w3))"

definition h_HLEN :: "hashfn \<Rightarrow> handler" where
  "h_HLEN H a w =
     (if length a < 2 then (resp_error (''wrong #args for '' @ sq ''hlen''), w)
      else let key = a ! 1;
               (now, w1) = steady_now w;
               (t, w2) = on_shard H key (\<lambda>s. type_of s key now) w1
           in if t = VT_String then (resp_wrongtype, w2)
              else let (n, w3) = on_shard_now H key (\<lambda>s now. hlen s key now) w2
                   in (resp_int n, w3))"

definition h_HGETALL :: "hashfn \<Rightarrow> handler" where
  "h_HGETALL H a w =
     (if length a < 2 then (resp_error (''wrong #args for '' @ sq ''hgetall''), w)
      else let key = a ! 1;
               (now, w1) = steady_now w;
               (t, w2) = on_shard H key (\<lambda>s. type_of s key now) w1
           in if t = VT_String then (resp_wrongtype, w2)
              else let (vec, w3) = on_shard_now H key (\<lambda>s now. hgetall s key now) w2
                   in (resp_array vec True, w3))"

definition h_TYPE :: "hashfn \<Rightarrow> handler" where
  "h_TYPE H a w =
     (if length a < 2 then (resp_error (''wrong #args for '' @ sq ''type''), w)
      else let key = a ! 1;
               (now, w1) = steady_now w;
               (t, w2) = on_shard H key (\<lambda>s. type_of s key now) w1
           in case t of
                VT_None \<Rightarrow> (resp_bulk ''none'', w2)
              | VT_String \<Rightarrow> (resp_bulk ''string'', w2)
              | VT_Hash \<Rightarrow> (resp_bulk ''hash'', w2))"

text \<open>
  \<open>MGET\<close>: the type check loop (\<open>True\<close> when it met a hash and the handler returns
  WRONGTYPE), then the loop that appends one bulk or nil per key to the reply.
\<close>

fun mget_check :: "hashfn \<Rightarrow> time_point \<Rightarrow> string list \<Rightarrow> Server \<Rightarrow> bool \<times> Server" where
  "mget_check H now [] w = (False, w)"
| "mget_check H now (k # ks) w =
     (let (t, w1) = on_shard H k (\<lambda>s. type_of s k now) w
      in if t = VT_Hash then (True, w1) else mget_check H now ks w1)"

definition bulk_or_nil :: "string option \<Rightarrow> string" where
  "bulk_or_nil v =
     (case v of None \<Rightarrow> ''$-1'' @ CRLF
      | Some x \<Rightarrow> ''$'' @ dec_digits (length x) @ CRLF @ x @ CRLF)"

fun mget_collect :: "hashfn \<Rightarrow> string list \<Rightarrow> string \<Rightarrow> Server \<Rightarrow> string \<times> Server" where
  "mget_collect H [] out w = (out, w)"
| "mget_collect H (k # ks) out w =
     (let (v, w1) = on_shard_now H k (\<lambda>s now. get s k now) w
      in mget_collect H ks (out @ bulk_or_nil v) w1)"

definition h_MGET :: "hashfn \<Rightarrow> handler" where
  "h_MGET H a w =
     (if length a < 2 then (resp_error (''wrong #args for '' @ sq ''mget''), w)
      else let (now, w1) = steady_now w;
               (bad, w2) = mget_check H now (drop 1 a) w1
           in if bad then (resp_wrongtype, w2)
              else mget_collect H (drop 1 a) (''*'' @ dec_digits (length a - 1) @ CRLF) w2)"

fun hmget_collect :: "hashfn \<Rightarrow> string \<Rightarrow> string list \<Rightarrow> string \<Rightarrow> Server \<Rightarrow> string \<times> Server" where
  "hmget_collect H key [] out w = (out, w)"
| "hmget_collect H key (f # fs) out w =
     (let (v, w1) = on_shard_now H key (\<lambda>s now. hget s key f now) w
      in hmget_collect H key fs (out @ bulk_or_nil v) w1)"

definition h_HMGET :: "hashfn \<Rightarrow> handler" where
  "h_HMGET H a w =
     (if length a < 3 then (resp_error (''wrong #args for '' @ sq ''hmget''), w)
      else let key = a ! 1;
               (now, w1) = steady_now w;
               (t, w2) = on_shard H key (\<lambda>s. type_of s key now) w1
           in if t = VT_String then (resp_wrongtype, w2)
              else hmget_collect H key (drop 2 a) (''*'' @ dec_digits (length a - 2) @ CRLF) w2)"

fun mset_loop :: "hashfn \<Rightarrow> string list \<Rightarrow> Server \<Rightarrow> Server" where
  "mset_loop H (key # val # rest) w =
     (let (u, w1) = on_shard_now H key (\<lambda>s now. ((), set_shard s key val now)) w
      in mset_loop H rest w1)"
| "mset_loop H rest w = w"

definition h_MSET :: "hashfn \<Rightarrow> handler" where
  "h_MSET H a w =
     (if length a < 3 \<or> (length a - 1) mod 2 \<noteq> 0
      then (resp_error (''wrong #args for '' @ sq ''mset''), w)
      else (resp_simple ''OK'', mset_loop H (drop 1 a) w))"

text \<open>
  The command table \<open>h_\<close> as the constructor of \<open>Router\<close> leaves it: the assignments in
  the order of the source, a later one replacing an earlier one under the same name.
\<close>

definition h_table :: "hashfn \<Rightarrow> string \<rightharpoonup> handler" where
  "h_table H =
     Map.empty(''PING'' \<mapsto> h_PING, ''ECHO'' \<mapsto> h_ECHO, ''SET'' \<mapsto> h_SET_first H,
       ''GET'' \<mapsto> h_GET H, ''DEL'' \<mapsto> h_DEL H, ''EXPIRE'' \<mapsto> h_EXPIRE H,
       ''TTL'' \<mapsto> h_TTL H, ''SET'' \<mapsto> h_SET H, ''PEXPIRE'' \<mapsto> h_PEXPIRE H,
       ''PERSIST'' \<mapsto> h_PERSIST H, ''EXISTS'' \<mapsto> h_EXISTS H, ''HSET'' \<mapsto> h_HSET H,
       ''HGET'' \<mapsto> h_HGET H, ''HDEL'' \<mapsto> h_HDEL H, ''HEXISTS'' \<mapsto> h_HEXISTS H,
       ''HLEN'' \<mapsto> h_HLEN H, ''HGETALL'' \<mapsto> h_HGETALL H, ''TYPE'' \<mapsto> h_TYPE H,
       ''MGET'' \<mapsto> h_MGET H, ''HMGET'' \<mapsto> h_HMGET H, ''MSET'' \<mapsto> h_MSET H)"

definition dispatch :: "hashfn \<Rightarrow> string list \<Rightarrow> Server \<Rightarrow> string \<times> Server" where
  "dispatch H a w =
     (if a = [] then (resp_error ''empty'', w)
      else case h_table H (upper (a ! 0)) of
             None \<Rightarrow> (resp_error ''unknown command'', w)
           | Some h \<Rightarrow> h a w)"

text \<open>
  \<open>Session::handle_frame\<close> hands every frame to the worker pool, so the dispatches of
  two frames can run at the same time, and a handler holds the lock of a shard only
  inside each shard operation it calls. The \<open>HSET\<close> handler takes the lock twice or more:
  once in \<open>type_of\<close> and once in each \<open>hset\<close>. \<open>h_HSET_around\<close> is one schedule of two
  workers: the \<open>HSET\<close> handler for the frame \<open>a\<close>, with the whole dispatch of another
  frame \<open>b\<close> running right after the \<open>type_of\<close> of \<open>a\<close> has released the lock. It returns
  the reply to \<open>a\<close>, the reply to \<open>b\<close> and the server after both. (When \<open>a\<close> has the wrong
  number of arguments its handler has returned before \<open>b\<close> runs.)
\<close>

definition h_HSET_around ::
  "hashfn \<Rightarrow> string list \<Rightarrow> string list \<Rightarrow> Server \<Rightarrow> (string \<times> string) \<times> Server" where
  "h_HSET_around H a b w =
     (if length a < 4 \<or> (length a - 2) mod 2 \<noteq> 0
      then let (rb, wb) = dispatch H b w
           in ((resp_error (''wrong #args for '' @ sq ''hset''), rb), wb)
      else let key = a ! 1;
               (now, w1) = steady_now w;
               (t, w2) = on_shard H key (\<lambda>s. type_of s key now) w1;
               (rb, wb) = dispatch H b w2
           in if t = VT_String then ((resp_wrongtype, rb), wb)
              else let (added, w3) = hset_loop H key (drop 2 a) 0 wb
                   in ((resp_int added, rb), w3))"


section \<open>Session read loop (src/net/session.cpp)\<close>

text \<open>
  The \<open>for (;;)\<close> loop of \<open>Session::do_read\<close> over the pending buffer. What the loop
  does besides erasing bytes is recorded as a list of actions: posting the reply
  \<open>-ERR proto\<close> to the strand, or handing a frame to \<open>handle_frame\<close>. The loop need not
  end, so its result is an option: \<open>None\<close> when it never reaches the \<open>break\<close>.
\<close>

datatype action = Post_proto_error | Handle_frame "string list"

partial_function (option) read_loop :: "string \<Rightarrow> action list \<Rightarrow> (string \<times> action list) option" where
  "read_loop pending acts =
     (let res = parse_resp pending in
      if arr res = None \<and> error res = [] then Some (pending, acts)
      else if error res \<noteq> [] then read_loop (drop (consumed res) pending) (acts @ [Post_proto_error])
      else case arr res of
             None \<Rightarrow> Some (pending, acts)
           | Some ra \<Rightarrow> read_loop (drop (consumed res) pending) (acts @ [Handle_frame (args ra)]))"

section \<open>Predicates used in the statements\<close>

text \<open>A key has left a shard when none of the three maps holds it.\<close>

definition evicted :: "Shard \<Rightarrow> string \<Rightarrow> bool" where
  "evicted s k = (str_map s k = None \<and> hash_map s k = None \<and> ttl_map s k = None)"

text \<open>
  A shard keeps a key in at most one of the string map and the hash map; a store does
  when each of its shards does. \<open>ok\<close> adds that the store has a shard at all, which
  \<open>Store_init\<close> guarantees, and \<open>str_none\<close> says that the shard of a key holds no string
  for it.
\<close>

definition one_kind :: "Shard \<Rightarrow> bool" where
  "one_kind s = (\<forall>k. \<not> (str_map s k \<noteq> None \<and> hash_map s k \<noteq> None))"

definition store_one_kind :: "Store \<Rightarrow> bool" where
  "store_one_kind st = (\<forall>s \<in> set (shards st). one_kind s)"

definition ok :: "Server \<Rightarrow> bool" where
  "ok w = (shards (store w) \<noteq> [] \<and> store_one_kind (store w))"

definition str_none :: "hashfn \<Rightarrow> string \<Rightarrow> Server \<Rightarrow> bool" where
  "str_none H key w = (str_map (shard_for H (store w) key) key = None)"

section \<open>Properties of the codec\<close>

subsection \<open>Decimal numbers are read back\<close>

lemma parse_ll_loop_append:
  "parse_ll_loop v (xs @ ys) = (case parse_ll_loop v xs of None \<Rightarrow> None | Some w \<Rightarrow> parse_ll_loop w ys)"
  by (induction xs arbitrary: v) (auto simp: Let_def)

lemma of_char_digit: "n < 10 \<Longrightarrow> (of_char (char_of (48 + n)) :: nat) = 48 + n"
  by (simp add: of_char_of)

lemma div10_le: "10 * q \<le> (m::int) \<Longrightarrow> q \<le> m div 10"
  using zdiv_mono1 [of "10 * q" m 10] by simp

lemma parse_ll_loop_dec_digits:
  "int n \<le> LLONG_MAX \<Longrightarrow> parse_ll_loop 0 (dec_digits n) = Some (int n)"
proof (induction n rule: dec_digits.induct)
  case (1 n)
  show ?case
  proof (cases "n < 10")
    case True
    with 1(2) show ?thesis
      by (subst dec_digits.simps) (simp add: of_char_digit LLONG_MAX_def Let_def)
  next
    case False
    have le: "int (n div 10) \<le> LLONG_MAX" using 1(2) by (simp add: LLONG_MAX_def)
    have ih: "parse_ll_loop 0 (dec_digits (n div 10)) = Some (int (n div 10))"
      using 1(1) [OF False le] .
    have d: "(of_char (char_of (48 + n mod 10)) :: nat) = 48 + n mod 10"
      by (rule of_char_digit) simp
    have chk: "\<not> int (n div 10) > (LLONG_MAX - int (n mod 10)) div 10"
    proof -
      have "n = 10 * (n div 10) + n mod 10"
        by simp
      then have "int n = 10 * int (n div 10) + int (n mod 10)"
        by linarith
      then have "10 * int (n div 10) \<le> LLONG_MAX - int (n mod 10)"
        using 1(2) by linarith
      then have "int (n div 10) \<le> (LLONG_MAX - int (n mod 10)) div 10"
        by (rule div10_le)
      then show ?thesis by (simp add: not_less)
    qed
    show ?thesis
      using False ih chk
      by (subst dec_digits.simps) (simp add: parse_ll_loop_append d zdiv_int zmod_int)
  qed
qed

lemma dec_digits_digits: "c \<in> set (dec_digits n) \<Longrightarrow> 48 \<le> (of_char c :: nat) \<and> (of_char c :: nat) \<le> 57"
proof (induction n rule: dec_digits.induct)
  case (1 n)
  show ?case
  proof (cases "n < 10")
    case True
    with 1(2) show ?thesis
      by (subst (asm) dec_digits.simps) (simp add: of_char_digit)
  next
    case False
    have d: "(of_char (char_of (48 + n mod 10)) :: nat) = 48 + n mod 10"
      by (rule of_char_digit) simp
    from 1(2) False have "c \<in> set (dec_digits (n div 10)) \<or> c = char_of (48 + n mod 10)"
      by (subst (asm) dec_digits.simps) auto
    then show ?thesis
    proof
      assume "c \<in> set (dec_digits (n div 10))"
      then show ?thesis using 1(1) [OF False] by simp
    next
      assume "c = char_of (48 + n mod 10)"
      then show ?thesis using d by simp
    qed
  qed
qed

lemma dec_digits_nonempty: "dec_digits n \<noteq> []"
  by (subst dec_digits.simps) simp

lemma CR_notin_dec_digits: "CR \<notin> set (dec_digits n)"
  using dec_digits_digits [of CR n] by (auto simp: CR_def)

lemma minus_notin_dec_digits: "CHR ''-'' \<notin> set (dec_digits n)"
  using dec_digits_digits [of "CHR ''-''" n] by auto

lemma parse_ll_dec_digits: "int n \<le> LLONG_MAX \<Longrightarrow> parse_ll (dec_digits n) = Some (int n)"
proof -
  assume le: "int n \<le> LLONG_MAX"
  have "hd (dec_digits n) \<in> set (dec_digits n)"
    by (simp add: dec_digits_nonempty)
  then have "hd (dec_digits n) \<noteq> CHR ''-''"
    using minus_notin_dec_digits [of n] by metis
  then show ?thesis
    by (simp add: parse_ll_def dec_digits_nonempty parse_ll_loop_dec_digits [OF le])
qed

lemma find_crlf_first:
  "CR \<notin> set ds \<Longrightarrow> find_crlf (ds @ CR # LF # rest) i = Some (i + length ds)"
proof (induction ds arbitrary: i)
  case Nil
  then show ?case by simp
next
  case (Cons a ds)
  then show ?case by (cases ds) auto
qed

subsection \<open>Round trip of an array of bulk strings\<close>

lemma pow63_lt_pow64: "(n::nat) < 2 ^ 63 \<Longrightarrow> n < 2 ^ 64"
  by simp

lemma take_drop_mid: "length p = n \<Longrightarrow> take (length x) (drop n (p @ x @ r)) = x"
  by simp

lemma parse_bulks_Suc_ok:
  assumes "off < length data" and "data ! off = CHR ''$''"
    and "get_line data (off + 1) = Some L2"
    and "parse_ll (take (L_end L2 - (off + 1)) (drop (off + 1) data)) = Some (int n)"
    and "(L_next L2 + n + 2) mod 2 ^ 64 \<le> length data"
    and "take n (drop (L_next L2) data) = x"
    and "L_next L2 + n + 1 < length data"
    and "data ! (L_next L2 + n) = CR" and "data ! (L_next L2 + n + 1) = LF"
  shows "parse_bulks data (Suc k) off acc = parse_bulks data k (L_next L2 + n + 2) (acc @ [x])"
  using assms by (simp add: Let_def)

lemma parse_bulks_step:
  assumes data: "data = pre @ CHR ''$'' # dec_digits (length x) @ CR # LF # x @ CR # LF # rest"
      and len: "length data < 2 ^ 63"
  shows "parse_bulks data (Suc k) (length pre) acc =
         parse_bulks data k (length pre + length (dec_digits (length x)) + length x + 5) (acc @ [x])"
proof -
  let ?ds = "dec_digits (length x)"
  let ?off = "length pre"
  let ?off1 = "?off + length ?ds + 3"
  let ?L2 = "\<lparr>L_start = ?off + 1, L_end = ?off + 1 + length ?ds, L_next = ?off1\<rparr>"
  have f1: "?off < length data" by (simp add: data)
  have f2: "data ! ?off = CHR ''$''" by (simp add: data)
  have dr: "drop (?off + 1) data = ?ds @ CR # LF # x @ CR # LF # rest"
    by (simp add: data)
  have f3: "get_line data (?off + 1) = Some ?L2"
    unfolding get_line_def read_line_def dr
    by (simp add: find_crlf_first [OF CR_notin_dec_digits])
  have xle: "int (length x) \<le> LLONG_MAX"
    using len by (simp add: data LLONG_MAX_def)
  have "take (length ?ds) (drop (?off + 1) data) = ?ds"
    unfolding dr by simp
  then have f4: "parse_ll (take (L_end ?L2 - (?off + 1)) (drop (?off + 1) data)) = Some (int (length x))"
    using parse_ll_dec_digits [OF xle] by simp
  have le: "?off1 + length x + 2 \<le> length data" by (simp add: data)
  then have "?off1 + length x + 2 < 2 ^ 63" using len by linarith
  then have "(?off1 + length x + 2) mod 2 ^ 64 = ?off1 + length x + 2"
    by (simp only: mod_less pow63_lt_pow64)
  with le have f5: "(L_next ?L2 + length x + 2) mod 2 ^ 64 \<le> length data"
    by simp
  have d1: "data = (pre @ CHR ''$'' # ?ds @ [CR, LF]) @ x @ CR # LF # rest"
    by (simp add: data)
  have "take (length x) (drop ?off1 data) = x"
    by (subst d1, rule take_drop_mid) simp
  then have f6: "take (length x) (drop (L_next ?L2) data) = x" by simp
  have f7: "L_next ?L2 + length x + 1 < length data"
    using le by simp
  have d2: "data = (pre @ CHR ''$'' # ?ds @ [CR, LF] @ x) @ CR # LF # rest"
    by (simp add: data)
  have l2: "length (pre @ CHR ''$'' # ?ds @ [CR, LF] @ x) = ?off1 + length x" by simp
  have "data ! (?off1 + length x) = CR"
    by (subst d2, subst l2 [symmetric], rule nth_append_length)
  then have f8: "data ! (L_next ?L2 + length x) = CR" by simp
  have d3: "data = (pre @ CHR ''$'' # ?ds @ [CR, LF] @ x @ [CR]) @ LF # rest"
    by (simp add: data)
  have l3: "length (pre @ CHR ''$'' # ?ds @ [CR, LF] @ x @ [CR]) = ?off1 + length x + 1" by simp
  have "data ! (?off1 + length x + 1) = LF"
    by (subst d3, subst l3 [symmetric], rule nth_append_length)
  then have f9: "data ! (L_next ?L2 + length x + 1) = LF" by simp
  have off: "L_next ?L2 + length x + 2 = ?off + length ?ds + length x + 5" by simp
  have "parse_bulks data (Suc k) ?off acc = parse_bulks data k (L_next ?L2 + length x + 2) (acc @ [x])"
    by (rule parse_bulks_Suc_ok [OF f1 f2 f3 f4 f5 f6 f7 f8 f9])
  then show ?thesis unfolding off .
qed

lemma parse_resp_header_ok:
  assumes "data \<noteq> []" and "data ! 0 = CHR ''*''"
    and "get_line data 1 = Some L"
    and "parse_ll (take (L_end L - 1) (drop 1 data)) = Some (int n)"
  shows "parse_resp data = parse_bulks data n (L_next L) []"
  using assms by (simp add: parse_resp_def)

lemma length_resp_bulk: "length (resp_bulk x) = length (dec_digits (length x)) + length x + 5"
  by (simp add: resp_bulk_def CRLF_def)

lemma parse_bulks_emitted:
  "length (pre @ concat (map resp_bulk xs)) < 2 ^ 63 \<Longrightarrow>
   parse_bulks (pre @ concat (map resp_bulk xs)) (length xs) (length pre) acc =
     \<lparr>arr = Some (RespArray (acc @ xs)), error = [],
      consumed = length (pre @ concat (map resp_bulk xs))\<rparr>"
proof (induction xs arbitrary: pre acc)
  case Nil
  then show ?case by simp
next
  case (Cons x xs)
  let ?data = "pre @ concat (map resp_bulk (x # xs))"
  let ?pre = "pre @ resp_bulk x"
  have eq: "?data = ?pre @ concat (map resp_bulk xs)" by simp
  have shape: "?data = pre @ CHR ''$'' # dec_digits (length x) @ CR # LF # x @ CR # LF #
      concat (map resp_bulk xs)"
    by (simp add: resp_bulk_def CRLF_def)
  have lp: "length ?pre = length pre + length (dec_digits (length x)) + length x + 5"
    by (simp add: length_resp_bulk)
  have step: "parse_bulks ?data (Suc (length xs)) (length pre) acc =
      parse_bulks ?data (length xs) (length ?pre) (acc @ [x])"
    unfolding lp by (rule parse_bulks_step [OF shape Cons.prems])
  have "parse_bulks ?data (length xs) (length ?pre) (acc @ [x]) =
      \<lparr>arr = Some (RespArray ((acc @ [x]) @ xs)), error = [], consumed = length ?data\<rparr>"
    unfolding eq by (rule Cons.IH) (use Cons.prems in simp)
  with step show ?case by (simp del: parse_bulks.simps)
qed

lemma resp_array_as_bulks: "resp_array X True = (''*'' @ dec_digits (length X) @ CRLF) @ concat (map resp_bulk X)"
  by (simp add: resp_array_def resp_bulk_def [abs_def])

lemma length_le_length_concat: "length xs \<le> length (concat (map resp_bulk xs))"
  by (induction xs) (auto simp: length_resp_bulk)

text \<open>
  Claim C6. For every list \<open>X\<close> of byte strings (empty strings, CR, LF and any other byte
  included), parsing the bytes that the array-of-bulks emitter produces for \<open>X\<close> gives
  the frame \<open>X\<close> with no error and reports the whole emitted string as consumed. The
  only hypothesis is that the emitted string has a length a \<open>std::string\<close> can have
  (below \<open>2 ^ 63\<close>), which is what keeps the lengths inside \<open>long long\<close>.
\<close>

theorem resp_roundtrip:
  assumes len: "length (resp_array X True) < 2 ^ 63"
  shows "parse_resp (resp_array X True) =
         \<lparr>arr = Some (RespArray X), error = [], consumed = length (resp_array X True)\<rparr>"
proof -
  let ?ds = "dec_digits (length X)"
  let ?pre = "''*'' @ ?ds @ CRLF"
  let ?data = "resp_array X True"
  let ?L = "\<lparr>L_start = 1, L_end = 1 + length ?ds, L_next = length ?pre\<rparr>"
  have shape: "?data = CHR ''*'' # ?ds @ CR # LF # concat (map resp_bulk X)"
    by (simp add: resp_array_as_bulks CRLF_def)
  have f1: "?data \<noteq> []" by (simp add: shape)
  have f2: "?data ! 0 = CHR ''*''" by (simp add: shape)
  have dr: "drop 1 ?data = ?ds @ CR # LF # concat (map resp_bulk X)"
    by (simp add: shape)
  have f3: "get_line ?data 1 = Some ?L"
    unfolding get_line_def read_line_def dr
    by (simp add: find_crlf_first [OF CR_notin_dec_digits] CRLF_def)
  have "length X \<le> length ?data"
    using length_le_length_concat [of X] by (simp add: resp_array_as_bulks)
  then have nle: "int (length X) \<le> LLONG_MAX"
    using len by (simp add: LLONG_MAX_def)
  have "take (length ?ds) (drop 1 ?data) = ?ds"
    unfolding dr by simp
  then have f4: "parse_ll (take (L_end ?L - 1) (drop 1 ?data)) = Some (int (length X))"
    using parse_ll_dec_digits [OF nle] by simp
  have len': "length (?pre @ concat (map resp_bulk X)) < 2 ^ 63"
    using len by (simp add: resp_array_as_bulks)
  have bulks: "parse_bulks ?data (length X) (length ?pre) [] =
      \<lparr>arr = Some (RespArray X), error = [], consumed = length ?data\<rparr>"
    using parse_bulks_emitted [OF len', of "[]"] by (simp add: resp_array_as_bulks)
  have "parse_resp ?data = parse_bulks ?data (length X) (L_next ?L) []"
    by (rule parse_resp_header_ok [OF f1 f2 f3 f4])
  with bulks show ?thesis by simp
qed

theorem resp_roundtrip_witness:
  "length (resp_array [''SET'', ''k'', [CR, LF, CHR ''$''], []] True) < 2 ^ 63 \<and>
   parse_resp (resp_array [''SET'', ''k'', [CR, LF, CHR ''$''], []] True) =
     \<lparr>arr = Some (RespArray [''SET'', ''k'', [CR, LF, CHR ''$''], []]), error = [],
      consumed = length (resp_array [''SET'', ''k'', [CR, LF, CHR ''$''], []] True)\<rparr>"
proof -
  have h: "length (resp_array [''SET'', ''k'', [CR, LF, CHR ''$''], []] True) < 2 ^ 63"
    by (simp add: resp_array_def CRLF_def dec_digits.simps)
  show ?thesis using h resp_roundtrip [OF h] by simp
qed


subsection \<open>Protocol errors on a buffer that starts an array\<close>

text \<open>
  Every protocol error that the parser reports on a buffer whose first byte is \<open>*\<close>
  comes with a positive number of bytes to drop.
\<close>

lemma get_line_next_pos: "get_line data off = Some L \<Longrightarrow> 0 < L_next L"
  by (auto simp: get_line_def split: option.splits)

lemma parse_bulks_error_consumed:
  "0 < off \<Longrightarrow> error (parse_bulks data k off acc) \<noteq> [] \<Longrightarrow>
   0 < consumed (parse_bulks data k off acc)"
proof (induction k arbitrary: off acc)
  case 0
  then show ?case by simp
next
  case (Suc k)
  show ?case
  proof (cases "get_line data (off + 1)")
    case None
    with Suc.prems show ?thesis
      by (auto simp: need_more_def proto_error_def split: if_splits)
  next
    case (Some L2)
    note pos = get_line_next_pos [OF Some]
    show ?thesis
    proof (cases "parse_ll (take (L_end L2 - (off + 1)) (drop (off + 1) data))")
      case None
      with Suc.prems Some pos show ?thesis
        by (auto simp: need_more_def proto_error_def split: if_splits)
    next
      case (Some blen)
      have a: "0 < consumed (parse_bulks data k (L_next L2) (acc @ [[]]))"
        if "error (parse_bulks data k (L_next L2) (acc @ [[]])) \<noteq> []"
        using Suc.IH [OF pos that] .
      have b: "0 < consumed (parse_bulks data k (L_next L2 + nat blen + 2) (acc @ [x]))"
        if "error (parse_bulks data k (L_next L2 + nat blen + 2) (acc @ [x])) \<noteq> []" for x
        using Suc.IH [OF _ that] by simp
      from Suc.prems \<open>get_line data (off + 1) = Some L2\<close> Some pos a b show ?thesis
        by (auto simp: need_more_def proto_error_def Let_def split: if_splits)
    qed
  qed
qed

lemma parse_resp_array_error_consumed:
  assumes "data \<noteq> []" and "data ! 0 = CHR ''*''" and "error (parse_resp data) \<noteq> []"
  shows "0 < consumed (parse_resp data)"
proof (cases "get_line data 1")
  case None
  with assms show ?thesis by (simp add: parse_resp_def need_more_def)
next
  case (Some L)
  note pos = get_line_next_pos [OF Some]
  show ?thesis
  proof (cases "parse_ll (take (L_end L - 1) (drop 1 data))")
    case None
    with assms Some pos show ?thesis by (simp add: parse_resp_def proto_error_def)
  next
    case (Some n)
    with assms \<open>get_line data 1 = Some L\<close> pos
      parse_bulks_error_consumed [OF pos, of data "nat n" "[]"]
    show ?thesis
      by (auto simp: parse_resp_def proto_error_def split: if_splits)
  qed
qed

section \<open>Properties of a shard\<close>

lemmas shard_defs =
  is_expired_unlocked_def get_def set_shard_def del_def set_expire_def ttl_ms_def
  clear_expire_def sweep_def hset_def hget_def hdel_def hexists_def hlen_def hgetall_def
  type_of_def duration_cast_ms_def cpp_div_def empty_shard_def

subsection \<open>Remaining time of a key\<close>

lemma duration_cast_ms_le0: "duration_cast_ms d \<le> 0 \<longleftrightarrow> d < 1000000"
  by (auto simp: duration_cast_ms_def cpp_div_def)

lemma duration_cast_ms_pos: "1000000 \<le> d \<Longrightarrow> duration_cast_ms d = d div 1000000"
  by (simp add: duration_cast_ms_def cpp_div_def)

text \<open>
  Claim C5, as the code has it. \<open>ttl_ms\<close> returns \<open>- 2\<close> when the key is in neither the
  string map nor the hash map, \<open>- 1\<close> when it is present without a TTL record, \<open>- 2\<close>
  again when it is present with a TTL record of which less than one whole millisecond
  remains (so whenever the deadline is not after \<open>now\<close>), and otherwise the positive
  number of whole milliseconds that remain. It never returns \<open>0\<close>, and it leaves the
  shard as it is.
\<close>

theorem ttl_ms_never_zero:
  "(str_map s k = None \<and> hash_map s k = None \<longrightarrow> fst (ttl_ms s k now) = - 2) \<and>
   ((str_map s k \<noteq> None \<or> hash_map s k \<noteq> None) \<and> ttl_map s k = None \<longrightarrow>
      fst (ttl_ms s k now) = - 1) \<and>
   ((str_map s k \<noteq> None \<or> hash_map s k \<noteq> None) \<and> ttl_map s k = Some tp \<and> tp - now < 1000000 \<longrightarrow>
      fst (ttl_ms s k now) = - 2) \<and>
   ((str_map s k \<noteq> None \<or> hash_map s k \<noteq> None) \<and> ttl_map s k = Some tp \<and> 1000000 \<le> tp - now \<longrightarrow>
      fst (ttl_ms s k now) = (tp - now) div 1000000 \<and> 0 < fst (ttl_ms s k now)) \<and>
   fst (ttl_ms s k now) \<noteq> 0 \<and> snd (ttl_ms s k now) = s"
proof -
  have pos: "0 < d div 1000000" if "1000000 \<le> d" for d :: int
    using that pos_imp_zdiv_pos_iff [of 1000000 d] by simp
  show ?thesis
    by (auto simp: ttl_ms_def Let_def duration_cast_ms_le0 duration_cast_ms_pos not_less pos
        split: option.splits)
qed

theorem ttl_ms_never_zero_witness:
  "fst (ttl_ms \<lparr>str_map = Map.empty(''k'' \<mapsto> ''v''), ttl_map = Map.empty(''k'' \<mapsto> 7000000),
                hash_map = Map.empty\<rparr> ''k'' 7000000) = - 2 \<and>
   fst (ttl_ms \<lparr>str_map = Map.empty(''k'' \<mapsto> ''v''), ttl_map = Map.empty(''k'' \<mapsto> 7000000),
                hash_map = Map.empty\<rparr> ''k'' 2500000) = 4 \<and>
   fst (ttl_ms \<lparr>str_map = Map.empty(''k'' \<mapsto> ''v''), ttl_map = Map.empty,
                hash_map = Map.empty\<rparr> ''k'' 2500000) = - 1 \<and>
   fst (ttl_ms \<lparr>str_map = Map.empty, ttl_map = Map.empty(''k'' \<mapsto> 7000000),
                hash_map = Map.empty\<rparr> ''k'' 2500000) = - 2"
  using
    ttl_ms_never_zero [of "\<lparr>str_map = Map.empty(''k'' \<mapsto> ''v''), ttl_map = Map.empty(''k'' \<mapsto> 7000000),
                hash_map = Map.empty\<rparr>" "''k''" 7000000 7000000]
    ttl_ms_never_zero [of "\<lparr>str_map = Map.empty(''k'' \<mapsto> ''v''), ttl_map = Map.empty(''k'' \<mapsto> 7000000),
                hash_map = Map.empty\<rparr>" "''k''" 2500000 7000000]
    ttl_ms_never_zero [of "\<lparr>str_map = Map.empty(''k'' \<mapsto> ''v''), ttl_map = Map.empty,
                hash_map = Map.empty\<rparr>" "''k''" 2500000 0]
    ttl_ms_never_zero [of "\<lparr>str_map = Map.empty, ttl_map = Map.empty(''k'' \<mapsto> 7000000),
                hash_map = Map.empty\<rparr>" "''k''" 2500000 0]
  by simp

text \<open>
  Claim C5 as stated fails: a key present in the string map whose deadline equals \<open>now\<close>
  gets \<open>- 2\<close>, not \<open>0\<close>, although it is not absent from both maps.
\<close>

theorem ttl_ms_elapsed_counterexample:
  "str_map \<lparr>str_map = Map.empty(''k'' \<mapsto> ''v''), ttl_map = Map.empty(''k'' \<mapsto> 7000000),
            hash_map = Map.empty\<rparr> ''k'' = Some ''v'' \<and>
   ttl_map \<lparr>str_map = Map.empty(''k'' \<mapsto> ''v''), ttl_map = Map.empty(''k'' \<mapsto> 7000000),
            hash_map = Map.empty\<rparr> ''k'' = Some 7000000 \<and>
   (7000000 :: int) \<le> 7000000 \<and>
   fst (ttl_ms \<lparr>str_map = Map.empty(''k'' \<mapsto> ''v''), ttl_map = Map.empty(''k'' \<mapsto> 7000000),
                hash_map = Map.empty\<rparr> ''k'' 7000000) = - 2 \<and>
   fst (ttl_ms \<lparr>str_map = Map.empty(''k'' \<mapsto> ''v''), ttl_map = Map.empty(''k'' \<mapsto> 7000000),
                hash_map = Map.empty\<rparr> ''k'' 7000000) \<noteq> 0"
  by (simp add: ttl_ms_def duration_cast_ms_def cpp_div_def)

subsection \<open>Observing a key whose deadline has passed\<close>

text \<open>
  Claim C4, as the code has it. For a key whose deadline is not after \<open>now\<close>: \<open>get\<close>,
  \<open>type_of\<close> and \<open>hdel\<close> report it absent and leave it in none of the three maps;
  \<open>set\<close> and \<open>hset\<close> drop the old value and the TTL record and install the new value;
  the observers \<open>hget\<close>, \<open>hexists\<close>, \<open>hlen\<close>, \<open>hgetall\<close> and \<open>ttl_ms\<close> report it
  absent and leave the shard unchanged.
\<close>

theorem expired_key_observed:
  assumes "is_expired_unlocked s k now"
  shows "fst (get s k now) = None \<and> evicted (snd (get s k now)) k \<and>
         fst (type_of s k now) = VT_None \<and> evicted (snd (type_of s k now)) k \<and>
         fst (hdel s k f now) = 0 \<and> evicted (snd (hdel s k f now)) k \<and>
         str_map (set_shard s k v now) k = Some v \<and> hash_map (set_shard s k v now) k = None \<and>
         ttl_map (set_shard s k v now) k = None \<and>
         fst (hset s k f v now) = 1 \<and> hash_map (snd (hset s k f v now)) k = Some [(f, v)] \<and>
         str_map (snd (hset s k f v now)) k = None \<and> ttl_map (snd (hset s k f v now)) k = None \<and>
         hget s k f now = (None, s) \<and> hexists s k f now = (0, s) \<and> hlen s k now = (0, s) \<and>
         hgetall s k now = ([], s) \<and> ttl_ms s k now = (- 2, s)"
proof -
  from assms obtain tp where tp: "ttl_map s k = Some tp" "tp \<le> now"
    by (auto simp: is_expired_unlocked_def split: option.splits)
  then have "tp - now < 1000000" by simp
  then have ttl: "ttl_ms s k now = (- 2, s)"
    using tp by (auto simp: ttl_ms_def Let_def duration_cast_ms_le0)
  show ?thesis
    using assms ttl
    by (simp add: get_def type_of_def hdel_def set_shard_def hset_def hget_def hexists_def
        hlen_def hgetall_def evicted_def Let_def)
qed

theorem expired_key_observed_witness:
  "is_expired_unlocked \<lparr>str_map = Map.empty, ttl_map = Map.empty(''k'' \<mapsto> 5),
        hash_map = Map.empty(''k'' \<mapsto> [(''f'', ''v'')])\<rparr> ''k'' 10 \<and>
   evicted (snd (type_of \<lparr>str_map = Map.empty, ttl_map = Map.empty(''k'' \<mapsto> 5),
        hash_map = Map.empty(''k'' \<mapsto> [(''f'', ''v'')])\<rparr> ''k'' 10)) ''k'' \<and>
   fst (hlen \<lparr>str_map = Map.empty, ttl_map = Map.empty(''k'' \<mapsto> 5),
        hash_map = Map.empty(''k'' \<mapsto> [(''f'', ''v'')])\<rparr> ''k'' 10) = 0"
proof -
  have h: "is_expired_unlocked \<lparr>str_map = Map.empty, ttl_map = Map.empty(''k'' \<mapsto> 5),
        hash_map = Map.empty(''k'' \<mapsto> [(''f'', ''v'')])\<rparr> ''k'' 10"
    by (simp add: is_expired_unlocked_def)
  show ?thesis
    using h expired_key_observed [OF h, of "''f''" "''v''"] by simp
qed

text \<open>
  Claim C4 as stated fails: after \<open>hget\<close> (and after \<open>ttl_ms\<close>) on a hash key whose
  deadline has passed, the key is still in the hash map and in the TTL map.
\<close>

theorem observer_keeps_expired_key_counterexample:
  "is_expired_unlocked \<lparr>str_map = Map.empty, ttl_map = Map.empty(''k'' \<mapsto> 5),
        hash_map = Map.empty(''k'' \<mapsto> [(''f'', ''v'')])\<rparr> ''k'' 10 \<and>
   hash_map (snd (hget \<lparr>str_map = Map.empty, ttl_map = Map.empty(''k'' \<mapsto> 5),
        hash_map = Map.empty(''k'' \<mapsto> [(''f'', ''v'')])\<rparr> ''k'' ''f'' 10)) ''k'' = Some [(''f'', ''v'')] \<and>
   ttl_map (snd (hget \<lparr>str_map = Map.empty, ttl_map = Map.empty(''k'' \<mapsto> 5),
        hash_map = Map.empty(''k'' \<mapsto> [(''f'', ''v'')])\<rparr> ''k'' ''f'' 10)) ''k'' = Some 5 \<and>
   hash_map (snd (ttl_ms \<lparr>str_map = Map.empty, ttl_map = Map.empty(''k'' \<mapsto> 5),
        hash_map = Map.empty(''k'' \<mapsto> [(''f'', ''v'')])\<rparr> ''k'' 10)) ''k'' = Some [(''f'', ''v'')]"
  by (simp add: is_expired_unlocked_def hget_def ttl_ms_def duration_cast_ms_def cpp_div_def)

subsection \<open>Writes that leave the TTL record of a live key\<close>

text \<open>
  On a key whose deadline has not passed, neither \<open>set\<close> nor \<open>hdel\<close> touches the TTL
  map, whatever they do to the value.
\<close>

lemma set_shard_keeps_live_ttl:
  "\<not> is_expired_unlocked s k now \<Longrightarrow> ttl_map (set_shard s k v now) = ttl_map s"
  by (simp add: set_shard_def Let_def)

lemma hdel_keeps_live_ttl:
  "\<not> is_expired_unlocked s k now \<Longrightarrow> ttl_map (snd (hdel s k f now)) = ttl_map s"
  by (simp add: hdel_def Let_def split: option.splits)

subsection \<open>Deleting the last field of a hash\<close>

text \<open>
  Claim C3 on the code. A hash \<open>k\<close> with the single field \<open>f\<close> gets a deadline five
  seconds ahead; one second later \<open>hdel\<close> removes \<open>f\<close>. The call returns \<open>1\<close> and \<open>k\<close> is
  gone from the hash map and the string map, but its TTL record is still there; when
  \<open>hset\<close> creates \<open>k\<close> again a second later, \<open>ttl_ms\<close> reports the 3000 ms left of the
  old deadline instead of \<open>- 1\<close>.
\<close>

theorem hdel_last_field_leaves_ttl:
  "fst (hdel (set_expire (snd (hset empty_shard ''k'' ''f'' ''v'' 0)) ''k'' 5000000000) ''k'' ''f'' 1000000000) = 1 \<and>
   hash_map (snd (hdel (set_expire (snd (hset empty_shard ''k'' ''f'' ''v'' 0)) ''k'' 5000000000) ''k'' ''f'' 1000000000)) ''k'' = None \<and>
   str_map (snd (hdel (set_expire (snd (hset empty_shard ''k'' ''f'' ''v'' 0)) ''k'' 5000000000) ''k'' ''f'' 1000000000)) ''k'' = None \<and>
   ttl_map (snd (hdel (set_expire (snd (hset empty_shard ''k'' ''f'' ''v'' 0)) ''k'' 5000000000) ''k'' ''f'' 1000000000)) ''k'' = Some 5000000000 \<and>
   fst (ttl_ms (snd (hset (snd (hdel (set_expire (snd (hset empty_shard ''k'' ''f'' ''v'' 0)) ''k'' 5000000000) ''k'' ''f'' 1000000000))
                   ''k'' ''g'' ''w'' 2000000000)) ''k'' 2000000000) = 3000"
  by (simp add: shard_defs Let_def)

theorem hdel_last_field_leaves_ttl_witness:
  "ttl_map (snd (hdel (set_expire (snd (hset empty_shard ''k'' ''f'' ''v'' 0)) ''k'' 5000000000) ''k'' ''f'' 1000000000)) ''k'' \<noteq> None"
  using hdel_last_field_leaves_ttl by simp

section \<open>Properties of the router and the session\<close>

subsection \<open>Commands on a store with one shard\<close>

lemmas router_defs =
  dispatch_def h_table_def upper_def toupper_def set_options_def stoll_def isspace_def isdigit_def
  digits_val_def LLONG_MAX_def LLONG_MIN_def on_shard_now_def on_shard_def steady_now_def
  Store_init_def shard_for_def shard_index_def put_shard_def sq_def not_an_integer_def
  resp_simple_def resp_error_def resp_int_def resp_bulk_def resp_nil_def resp_wrongtype_def
  show_ll_def CRLF_def char_of_eq_iff

lemma dec_digits_small [simp]: "n < 10 \<Longrightarrow> dec_digits n = [char_of (48 + n)]"
  by (subst dec_digits.simps) simp

text \<open>
  Claim C1 on the code. \<open>SET k old PX 5000\<close>, then \<open>SET k new\<close> with no option, then
  \<open>TTL k\<close>, the clock standing still: the value is the new one, but \<open>TTL\<close> replies \<open>:5\<close>,
  the deadline of the first \<open>SET\<close>, where the claim has \<open>:-1\<close>.
\<close>

theorem set_keeps_ttl:
  "fst (dispatch H [''TTL'', ''k'']
      (snd (dispatch H [''SET'', ''k'', ''new'']
        (snd (dispatch H [''SET'', ''k'', ''old'', ''PX'', ''5000'']
          \<lparr>store = Store_init 1, clock = (\<lambda>i. 0)\<rparr>))))) = '':5'' @ CRLF \<and>
   fst (dispatch H [''GET'', ''k'']
      (snd (dispatch H [''SET'', ''k'', ''new'']
        (snd (dispatch H [''SET'', ''k'', ''old'', ''PX'', ''5000'']
          \<lparr>store = Store_init 1, clock = (\<lambda>i. 0)\<rparr>))))) = ''$3'' @ CRLF @ ''new'' @ CRLF"
  by (simp add: router_defs shard_defs h_SET_def h_TTL_def h_GET_def Let_def)

theorem set_keeps_ttl_witness:
  "fst (dispatch (\<lambda>k. 0) [''TTL'', ''k'']
      (snd (dispatch (\<lambda>k. 0) [''SET'', ''k'', ''new'']
        (snd (dispatch (\<lambda>k. 0) [''SET'', ''k'', ''old'', ''PX'', ''5000'']
          \<lparr>store = Store_init 1, clock = (\<lambda>i. 0)\<rparr>))))) \<noteq> '':-1'' @ CRLF"
  using set_keeps_ttl [of "\<lambda>k. 0"] by (simp add: CRLF_def)

text \<open>
  Claim C2 on the code. After \<open>HSET h f v\<close> the key \<open>h\<close> exists (\<open>TYPE h\<close> replies
  \<open>hash\<close>), yet \<open>EXPIRE h 10\<close>, \<open>PEXPIRE h 10\<close> and \<open>PERSIST h\<close> each reply \<open>:0\<close>, and
  \<open>EXPIRE\<close> installs no TTL record.
\<close>

theorem expire_on_hash_replies_zero:
  "fst (dispatch H [''TYPE'', ''h'']
      (snd (dispatch H [''HSET'', ''h'', ''f'', ''v''] \<lparr>store = Store_init 1, clock = (\<lambda>i. 0)\<rparr>)))
     = ''$4'' @ CRLF @ ''hash'' @ CRLF \<and>
   fst (dispatch H [''EXPIRE'', ''h'', ''10'']
      (snd (dispatch H [''HSET'', ''h'', ''f'', ''v''] \<lparr>store = Store_init 1, clock = (\<lambda>i. 0)\<rparr>)))
     = '':0'' @ CRLF \<and>
   fst (dispatch H [''PEXPIRE'', ''h'', ''10'']
      (snd (dispatch H [''HSET'', ''h'', ''f'', ''v''] \<lparr>store = Store_init 1, clock = (\<lambda>i. 0)\<rparr>)))
     = '':0'' @ CRLF \<and>
   fst (dispatch H [''PERSIST'', ''h'']
      (snd (dispatch H [''HSET'', ''h'', ''f'', ''v''] \<lparr>store = Store_init 1, clock = (\<lambda>i. 0)\<rparr>)))
     = '':0'' @ CRLF \<and>
   ttl_map (shard_for H (store (snd (dispatch H [''EXPIRE'', ''h'', ''10'']
      (snd (dispatch H [''HSET'', ''h'', ''f'', ''v''] \<lparr>store = Store_init 1, clock = (\<lambda>i. 0)\<rparr>))))) ''h'') ''h''
     = None"
  by (simp add: router_defs shard_defs h_HSET_def h_TYPE_def h_EXPIRE_def h_PEXPIRE_def h_PERSIST_def Let_def)

theorem expire_on_hash_replies_zero_witness:
  "fst (dispatch (\<lambda>k. 0) [''EXPIRE'', ''h'', ''10'']
      (snd (dispatch (\<lambda>k. 0) [''HSET'', ''h'', ''f'', ''v''] \<lparr>store = Store_init 1, clock = (\<lambda>i. 0)\<rparr>)))
     \<noteq> '':1'' @ CRLF"
  using expire_on_hash_replies_zero [of "\<lambda>k. 0"] by (simp add: CRLF_def)

subsection \<open>An inline command in the read loop\<close>

lemma parse_resp_inline:
  "parse_resp [CHR ''P'', CHR ''I'', CHR ''N'', CHR ''G'', CR, LF] =
     proto_error ''protocol error: expected array'' 0"
  by (simp add: parse_resp_def)

lemma read_loop_returns:
  assumes "read_loop pending acts = Some r"
  shows "pending \<noteq> [CHR ''P'', CHR ''I'', CHR ''N'', CHR ''G'', CR, LF]"
proof (rule read_loop.raw_induct
    [where P = "\<lambda>p a r. p \<noteq> [CHR ''P'', CHR ''I'', CHR ''N'', CHR ''G'', CR, LF]", OF _ assms])
  fix f p a r
  assume IH: "\<And>p a r. f p a = Some r \<Longrightarrow> p \<noteq> [CHR ''P'', CHR ''I'', CHR ''N'', CHR ''G'', CR, LF]"
    and body: "(let res = parse_resp p in
      if arr res = None \<and> error res = [] then Some (p, a)
      else if error res \<noteq> [] then f (drop (consumed res) p) (a @ [Post_proto_error])
      else case arr res of
             None \<Rightarrow> Some (p, a)
           | Some ra \<Rightarrow> f (drop (consumed res) p) (a @ [Handle_frame (args ra)])) = Some r"
  show "p \<noteq> [CHR ''P'', CHR ''I'', CHR ''N'', CHR ''G'', CR, LF]"
  proof
    assume p: "p = [CHR ''P'', CHR ''I'', CHR ''N'', CHR ''G'', CR, LF]"
    from body have "f p (a @ [Post_proto_error]) = Some r"
      unfolding p parse_resp_inline by (simp add: proto_error_def)
    from IH [OF this] p show False by simp
  qed
qed

text \<open>
  Claim C7 on the code. On the buffer \<open>PING\<close> followed by CR LF (an inline command) the parser
  reports a protocol error with zero bytes to drop, and the read loop of the session,
  which erases that many bytes and parses again, never leaves the loop.
\<close>

theorem inline_command_consumes_nothing:
  "error (parse_resp [CHR ''P'', CHR ''I'', CHR ''N'', CHR ''G'', CR, LF]) = ''protocol error: expected array'' \<and>
   consumed (parse_resp [CHR ''P'', CHR ''I'', CHR ''N'', CHR ''G'', CR, LF]) = 0 \<and>
   read_loop [CHR ''P'', CHR ''I'', CHR ''N'', CHR ''G'', CR, LF] [] = None"
proof -
  have "read_loop [CHR ''P'', CHR ''I'', CHR ''N'', CHR ''G'', CR, LF] [] = None"
    using read_loop_returns [of "[CHR ''P'', CHR ''I'', CHR ''N'', CHR ''G'', CR, LF]" "[]"]
    by (cases "read_loop [CHR ''P'', CHR ''I'', CHR ''N'', CHR ''G'', CR, LF] []") auto
  then show ?thesis
    by (simp add: parse_resp_inline proto_error_def)
qed


section \<open>Properties of the handlers on a store\<close>

subsection \<open>Resolving keys to shards\<close>

lemma shard_index_less: "shards st \<noteq> [] \<Longrightarrow> shard_index H st key < length (shards st)"
  by (simp add: shard_index_def)

lemma shard_index_put_shard [simp]:
  "shard_index H (put_shard H st key s) key' = shard_index H st key'"
  by (simp add: shard_index_def put_shard_def)

lemma shards_put_shard_nonempty [simp]:
  "shards (put_shard H st key s) \<noteq> [] \<longleftrightarrow> shards st \<noteq> []"
  by (simp add: put_shard_def)

lemma shard_for_put_shard:
  "shards st \<noteq> [] \<Longrightarrow>
   shard_for H (put_shard H st key s) key' =
     (if shard_index H st key' = shard_index H st key then s else shard_for H st key')"
  using shard_index_less [of st H key]
  by (auto simp: shard_for_def put_shard_def shard_index_def)

lemma fst_on_shard: "fst (on_shard H key f w) = fst (f (shard_for H (store w) key))"
  by (simp add: on_shard_def split_def Let_def)

lemma shard_for_same_index:
  "shard_index H st key' = shard_index H st key \<Longrightarrow> shard_for H st key' = shard_for H st key"
  by (simp add: shard_for_def)

lemma snd_on_shard:
  "snd (on_shard H key f w) = w\<lparr>store := put_shard H (store w) key (snd (f (shard_for H (store w) key)))\<rparr>"
  by (simp add: on_shard_def split_def Let_def)

subsection \<open>EXISTS counts argument positions\<close>

lemma type_of_after_type_of:
  "fst (type_of (snd (type_of s k now)) k' now) = fst (type_of s k' now)"
  by (simp add: type_of_def is_expired_unlocked_def split: option.splits)

lemma exists_loop_count:
  "shards (store w) \<noteq> [] \<Longrightarrow>
   fst (exists_loop H now ks c w) =
     c + int (length (filter (\<lambda>key. fst (type_of (shard_for H (store w) key) key now) \<noteq> VT_None) ks))"
proof (induction ks arbitrary: c w)
  case Nil
  then show ?case by simp
next
  case (Cons key ks)
  let ?w1 = "snd (on_shard H key (\<lambda>s. type_of s key now) w)"
  let ?t = "fst (type_of (shard_for H (store w) key) key now)"
  have ne: "shards (store ?w1) \<noteq> []"
    using Cons.prems by (simp add: snd_on_shard)
  have same: "fst (type_of (shard_for H (store ?w1) k') k' now) =
      fst (type_of (shard_for H (store w) k') k' now)" for k'
    using Cons.prems
    by (auto simp: snd_on_shard shard_for_put_shard type_of_after_type_of
        dest: shard_for_same_index)
  have "fst (exists_loop H now (key # ks) c w) =
      fst (exists_loop H now ks (if ?t \<noteq> VT_None then c + 1 else c) ?w1)"
    by (simp add: split_def Let_def fst_on_shard)
  also have "\<dots> = (if ?t \<noteq> VT_None then c + 1 else c) +
      int (length (filter (\<lambda>key. fst (type_of (shard_for H (store ?w1) key) key now) \<noteq> VT_None) ks))"
    by (rule Cons.IH [OF ne])
  finally show ?case
    by (simp add: same)
qed

lemma h_table_EXISTS: "h_table H ''EXISTS'' = Some (h_EXISTS H)"
  by (simp add: h_table_def)

text \<open>
  Claim C10. On a store with at least one shard, the reply of \<open>EXISTS\<close> with at least
  one key is the integer reply for the number of argument positions \<open>i \<ge> 1\<close> whose key
  has a type other than \<open>None\<close> in the store as the command finds it, at the clock
  reading the handler takes. \<open>filter\<close> keeps every occurrence, so a present key that is
  repeated counts once per occurrence.
\<close>

theorem exists_counts_argument_positions:
  assumes "shards (store w) \<noteq> []" and "2 \<le> length a" and "upper (a ! 0) = ''EXISTS''"
  shows "fst (dispatch H a w) =
         resp_int (int (length (filter
           (\<lambda>key. fst (type_of (shard_for H (store w) key) key (clock w 0)) \<noteq> VT_None)
           (drop 1 a))))"
proof -
  from assms(2) have ne: "a \<noteq> []" by auto
  have "fst (dispatch H a w) = fst (h_EXISTS H a w)"
    using ne assms(3) by (simp add: dispatch_def h_table_EXISTS)
  also have "\<dots> = resp_int (fst (exists_loop H (clock w 0) (drop 1 a) 0 (snd (steady_now w))))"
    using assms(2) by (simp add: h_EXISTS_def split_def Let_def steady_now_def)
  also have "fst (exists_loop H (clock w 0) (drop 1 a) 0 (snd (steady_now w))) =
      0 + int (length (filter
        (\<lambda>key. fst (type_of (shard_for H (store (snd (steady_now w))) key) key (clock w 0)) \<noteq> VT_None)
        (drop 1 a)))"
    by (rule exists_loop_count) (use assms(1) in \<open>simp add: steady_now_def\<close>)
  finally show ?thesis by (simp add: steady_now_def)
qed

theorem exists_counts_argument_positions_witness:
  "shards (store \<lparr>store = \<lparr>shards = [\<lparr>str_map = Map.empty(''k'' \<mapsto> ''v''), ttl_map = Map.empty,
        hash_map = Map.empty\<rparr>]\<rparr>, clock = (\<lambda>i. 0)\<rparr>) \<noteq> [] \<and>
   2 \<le> length [''exists'', ''k'', ''k'', ''x'', ''k''] \<and>
   upper ([''exists'', ''k'', ''k'', ''x'', ''k''] ! 0) = ''EXISTS'' \<and>
   fst (dispatch (\<lambda>k. 0) [''exists'', ''k'', ''k'', ''x'', ''k'']
     \<lparr>store = \<lparr>shards = [\<lparr>str_map = Map.empty(''k'' \<mapsto> ''v''), ttl_map = Map.empty,
        hash_map = Map.empty\<rparr>]\<rparr>, clock = (\<lambda>i. 0)\<rparr>) = '':3'' @ CRLF"
proof -
  let ?w = "\<lparr>store = \<lparr>shards = [\<lparr>str_map = Map.empty(''k'' \<mapsto> ''v''), ttl_map = Map.empty,
        hash_map = Map.empty\<rparr>]\<rparr>, clock = (\<lambda>i. 0)\<rparr>"
  let ?a = "[''exists'', ''k'', ''k'', ''x'', ''k'']"
  have h1: "shards (store ?w) \<noteq> []" by simp
  have h2: "2 \<le> length ?a" by simp
  have h3: "upper (?a ! 0) = ''EXISTS''"
    by (simp add: upper_def toupper_def char_of_eq_iff)
  have "fst (dispatch (\<lambda>k. 0) ?a ?w) = '':3'' @ CRLF"
    unfolding exists_counts_argument_positions [OF h1 h2 h3]
    by (simp add: shard_for_def shard_index_def type_of_def is_expired_unlocked_def resp_int_def
        show_ll_def dec_digits.simps char_of_eq_iff)
  with h1 h2 h3 show ?thesis by simp
qed

subsection \<open>Shard operations keep a key in one map\<close>

lemma one_kind_empty: "one_kind empty_shard"
  by (simp add: one_kind_def empty_shard_def)

lemma one_kind_get: "one_kind s \<Longrightarrow> one_kind (snd (get s k now))"
  by (simp add: one_kind_def get_def)

lemma one_kind_set_shard: "one_kind s \<Longrightarrow> one_kind (set_shard s k v now)"
  by (simp add: one_kind_def set_shard_def Let_def)

lemma one_kind_del: "one_kind s \<Longrightarrow> one_kind (snd (del s k))"
  by (simp add: one_kind_def del_def Let_def)

lemma one_kind_set_expire: "one_kind s \<Longrightarrow> one_kind (set_expire s k tp)"
  by (simp add: one_kind_def set_expire_def)

lemma snd_ttl_ms: "snd (ttl_ms s k now) = s"
  by (simp add: ttl_ms_def Let_def split: option.splits)

lemma one_kind_clear_expire: "one_kind s \<Longrightarrow> one_kind (clear_expire s k)"
  by (simp add: one_kind_def clear_expire_def)

lemma one_kind_sweep: "one_kind s \<Longrightarrow> one_kind (sweep s now)"
  by (simp add: one_kind_def sweep_def)

lemma snd_hget: "snd (hget s k f now) = s"
  by (simp add: hget_def split: option.splits)

lemma snd_hexists: "snd (hexists s k f now) = s"
  by (simp add: hexists_def split: option.splits)

lemma snd_hlen: "snd (hlen s k now) = s"
  by (simp add: hlen_def split: option.splits)

lemma snd_hgetall: "snd (hgetall s k now) = s"
  by (simp add: hgetall_def split: option.splits)

lemma one_kind_hdel: "one_kind s \<Longrightarrow> one_kind (snd (hdel s k f now))"
  by (auto simp: one_kind_def hdel_def Let_def split: option.splits)

lemma one_kind_type_of: "one_kind s \<Longrightarrow> one_kind (snd (type_of s k now))"
  by (simp add: one_kind_def type_of_def)

lemma type_of_not_String:
  "fst (type_of s key now) \<noteq> VT_String \<Longrightarrow> str_map (snd (type_of s key now)) key = None"
  by (simp add: type_of_def split: if_splits)

lemma hset_keeps:
  "one_kind s \<Longrightarrow> str_map s key = None \<Longrightarrow>
   one_kind (snd (hset s key f v now)) \<and> str_map (snd (hset s key f v now)) key = None"
  by (simp add: one_kind_def hset_def Let_def)

subsection \<open>Handlers keep a key in one map\<close>

lemma ok_steady_now [simp]: "ok (snd (steady_now w)) = ok w"
  by (simp add: ok_def steady_now_def)

lemma store_steady_now [simp]: "store (snd (steady_now w)) = store w"
  by (simp add: steady_now_def)

lemma ok_shard_for: "ok w \<Longrightarrow> one_kind (shard_for H (store w) key)"
  using shard_index_less [of "store w" H key]
  by (simp add: ok_def store_one_kind_def shard_for_def)

lemma ok_put_shard:
  assumes "ok w" and "one_kind s"
  shows "ok (w\<lparr>store := put_shard H (store w) key s\<rparr>)"
proof -
  have "set ((shards (store w))[shard_index H (store w) key := s]) \<subseteq> insert s (set (shards (store w)))"
    by (rule set_update_subset_insert)
  with assms show ?thesis
    by (auto simp: ok_def store_one_kind_def put_shard_def)
qed

lemma ok_on_shard:
  assumes "ok w"
    and "one_kind (shard_for H (store w) key) \<Longrightarrow> one_kind (snd (f (shard_for H (store w) key)))"
  shows "ok (snd (on_shard H key f w))"
  unfolding snd_on_shard
  by (rule ok_put_shard [OF assms(1)]) (rule assms(2), rule ok_shard_for [OF assms(1)])

lemma snd_on_shard_now:
  "snd (on_shard_now H key f w) = snd (on_shard H key (\<lambda>s. f s (clock w 0)) (snd (steady_now w)))"
  by (simp add: on_shard_now_def split_def Let_def steady_now_def)

lemma fst_on_shard_now:
  "fst (on_shard_now H key f w) = fst (on_shard H key (\<lambda>s. f s (clock w 0)) (snd (steady_now w)))"
  by (simp add: on_shard_now_def split_def Let_def steady_now_def)

lemma ok_on_shard_now:
  assumes "ok w"
    and "\<And>now. one_kind (shard_for H (store w) key) \<Longrightarrow> one_kind (snd (f (shard_for H (store w) key) now))"
  shows "ok (snd (on_shard_now H key f w))"
  unfolding snd_on_shard_now
  by (rule ok_on_shard) (use assms in simp_all)

lemmas ok_intros =
  ok_on_shard ok_on_shard_now one_kind_get one_kind_set_shard one_kind_del one_kind_set_expire
  one_kind_clear_expire one_kind_hdel one_kind_type_of

lemmas snd_observers = snd_ttl_ms snd_hget snd_hexists snd_hlen snd_hgetall

lemma ok_h_PING: "ok w \<Longrightarrow> ok (snd (h_PING a w))"
  by (simp add: h_PING_def)

lemma ok_h_ECHO: "ok w \<Longrightarrow> ok (snd (h_ECHO a w))"
  by (simp add: h_ECHO_def)

lemma ok_h_SET_first: "ok w \<Longrightarrow> ok (snd (h_SET_first H a w))"
  by (auto simp: h_SET_first_def split_def Let_def intro!: ok_intros)

lemma ok_h_GET: "ok w \<Longrightarrow> ok (snd (h_GET H a w))"
  by (auto simp: h_GET_def split_def Let_def intro!: ok_intros split: option.splits)

lemma ok_h_DEL: "ok w \<Longrightarrow> ok (snd (h_DEL H a w))"
  by (auto simp: h_DEL_def split_def Let_def intro!: ok_intros)

lemma ok_h_EXPIRE: "ok w \<Longrightarrow> ok (snd (h_EXPIRE H a w))"
  by (auto simp: h_EXPIRE_def split_def Let_def intro!: ok_intros split: option.splits)

lemma ok_h_TTL: "ok w \<Longrightarrow> ok (snd (h_TTL H a w))"
  by (auto simp: h_TTL_def split_def Let_def snd_observers intro!: ok_intros)

lemma ok_h_SET: "ok w \<Longrightarrow> ok (snd (h_SET H a w))"
  by (auto simp: h_SET_def split_def Let_def intro!: ok_intros split: sum.splits)

lemma ok_h_PEXPIRE: "ok w \<Longrightarrow> ok (snd (h_PEXPIRE H a w))"
  by (auto simp: h_PEXPIRE_def split_def Let_def intro!: ok_intros split: option.splits)

lemma ok_h_PERSIST: "ok w \<Longrightarrow> ok (snd (h_PERSIST H a w))"
  by (auto simp: h_PERSIST_def split_def Let_def intro!: ok_intros)

lemma ok_type_of: "ok w \<Longrightarrow> ok (snd (on_shard H key (\<lambda>s. type_of s key now) w))"
  by (rule ok_on_shard) (simp_all add: one_kind_type_of)

lemma ok_get: "ok w \<Longrightarrow> ok (snd (on_shard_now H key (\<lambda>s now. get s key now) w))"
  by (rule ok_on_shard_now) (simp_all add: one_kind_get)

lemma ok_hget: "ok w \<Longrightarrow> ok (snd (on_shard_now H key (\<lambda>s now. hget s key f now) w))"
  by (rule ok_on_shard_now) (simp_all add: snd_hget)

lemma ok_exists_loop: "ok w \<Longrightarrow> ok (snd (exists_loop H now ks c w))"
proof (induction ks arbitrary: c w)
  case Nil
  then show ?case by simp
next
  case (Cons key ks)
  from Cons.IH [OF ok_type_of [OF Cons.prems]] show ?case
    by (simp add: split_def Let_def)
qed

lemma ok_h_EXISTS: "ok w \<Longrightarrow> ok (snd (h_EXISTS H a w))"
  by (auto simp: h_EXISTS_def split_def Let_def intro!: ok_exists_loop)

lemma str_none_after_type_of:
  assumes "ok w" and "fst (on_shard H key (\<lambda>s. type_of s key now) w) \<noteq> VT_String"
  shows "str_none H key (snd (on_shard H key (\<lambda>s. type_of s key now) w))"
  using assms
  by (simp add: str_none_def snd_on_shard fst_on_shard shard_for_put_shard ok_def type_of_not_String)

lemma hset_step:
  assumes "ok w" and "str_none H key w"
  shows "ok (snd (on_shard_now H key (\<lambda>s now. hset s key f v now) w)) \<and>
         str_none H key (snd (on_shard_now H key (\<lambda>s now. hset s key f v now) w))"
proof -
  have s: "str_map (shard_for H (store w) key) key = None"
    using assms(2) by (simp add: str_none_def)
  have k: "one_kind (shard_for H (store w) key)"
    by (rule ok_shard_for [OF assms(1)])
  have "ok (snd (on_shard_now H key (\<lambda>s now. hset s key f v now) w))"
    by (rule ok_on_shard_now [OF assms(1)]) (simp add: hset_keeps [OF _ s])
  moreover have "str_none H key (snd (on_shard_now H key (\<lambda>s now. hset s key f v now) w))"
    using assms(1) hset_keeps [OF k s]
    by (simp add: str_none_def snd_on_shard_now snd_on_shard shard_for_put_shard ok_def)
  ultimately show ?thesis ..
qed

lemma ok_hset_loop:
  "ok w \<Longrightarrow> str_none H key w \<Longrightarrow> ok (snd (hset_loop H key rest added w))"
proof (induction H key rest added w rule: hset_loop.induct)
  case (1 H key f v rest added w)
  from hset_step [OF "1.prems"] "1.IH" show ?case
    by (simp add: split_def Let_def)
qed simp_all

lemma ok_h_HSET: "ok w \<Longrightarrow> ok (snd (h_HSET H a w))"
  by (auto simp: h_HSET_def split_def Let_def
      intro!: ok_hset_loop str_none_after_type_of ok_intros)

lemma ok_h_HGET: "ok w \<Longrightarrow> ok (snd (h_HGET H a w))"
  by (auto simp: h_HGET_def split_def Let_def snd_observers intro!: ok_intros split: option.splits)

lemma ok_h_HDEL: "ok w \<Longrightarrow> ok (snd (h_HDEL H a w))"
  by (auto simp: h_HDEL_def split_def Let_def intro!: ok_intros)

lemma ok_h_HEXISTS: "ok w \<Longrightarrow> ok (snd (h_HEXISTS H a w))"
  by (auto simp: h_HEXISTS_def split_def Let_def snd_observers intro!: ok_intros)

lemma ok_h_HLEN: "ok w \<Longrightarrow> ok (snd (h_HLEN H a w))"
  by (auto simp: h_HLEN_def split_def Let_def snd_observers intro!: ok_intros)

lemma ok_h_HGETALL: "ok w \<Longrightarrow> ok (snd (h_HGETALL H a w))"
  by (auto simp: h_HGETALL_def split_def Let_def snd_observers intro!: ok_intros)

lemma ok_h_TYPE: "ok w \<Longrightarrow> ok (snd (h_TYPE H a w))"
  by (auto simp: h_TYPE_def split_def Let_def intro!: ok_intros split: ValueType.splits)

lemma ok_mget_check: "ok w \<Longrightarrow> ok (snd (mget_check H now ks w))"
proof (induction ks arbitrary: w)
  case Nil
  then show ?case by simp
next
  case (Cons key ks)
  from Cons.IH [OF ok_type_of [OF Cons.prems]] ok_type_of [OF Cons.prems] show ?case
    by (simp add: split_def Let_def)
qed

lemma ok_mget_collect: "ok w \<Longrightarrow> ok (snd (mget_collect H ks out w))"
proof (induction ks arbitrary: out w)
  case Nil
  then show ?case by simp
next
  case (Cons key ks)
  from Cons.IH [OF ok_get [OF Cons.prems]] show ?case
    by (simp add: split_def Let_def)
qed

lemma ok_h_MGET: "ok w \<Longrightarrow> ok (snd (h_MGET H a w))"
  by (auto simp: h_MGET_def split_def Let_def intro!: ok_mget_check ok_mget_collect)

lemma ok_hmget_collect: "ok w \<Longrightarrow> ok (snd (hmget_collect H key fs out w))"
proof (induction fs arbitrary: out w)
  case Nil
  then show ?case by simp
next
  case (Cons f fs)
  from Cons.IH [OF ok_hget [OF Cons.prems]] show ?case
    by (simp add: split_def Let_def)
qed

lemma ok_h_HMGET: "ok w \<Longrightarrow> ok (snd (h_HMGET H a w))"
  by (auto simp: h_HMGET_def split_def Let_def intro!: ok_hmget_collect ok_intros)

lemma ok_mset_loop: "ok w \<Longrightarrow> ok (mset_loop H rest w)"
proof (induction H rest w rule: mset_loop.induct)
  case (1 H key val rest w)
  have "ok (snd (on_shard_now H key (\<lambda>s now. ((), set_shard s key val now)) w))"
    by (rule ok_on_shard_now [OF "1.prems"]) (simp add: one_kind_set_shard)
  with "1.IH" [OF refl prod.collapse] show ?case by (simp add: split_def Let_def)
qed simp_all

lemma ok_h_MSET: "ok w \<Longrightarrow> ok (snd (h_MSET H a w))"
  by (auto simp: h_MSET_def intro!: ok_mset_loop)

lemmas ok_handlers =
  ok_h_PING ok_h_ECHO ok_h_SET_first ok_h_GET ok_h_DEL ok_h_EXPIRE ok_h_TTL ok_h_SET ok_h_PEXPIRE
  ok_h_PERSIST ok_h_EXISTS ok_h_HSET ok_h_HGET ok_h_HDEL ok_h_HEXISTS ok_h_HLEN ok_h_HGETALL
  ok_h_TYPE ok_h_MGET ok_h_HMGET ok_h_MSET

lemma ok_h_table: "h_table H c = Some h \<Longrightarrow> ok w \<Longrightarrow> ok (snd (h a w))"
  by (auto simp: h_table_def ok_handlers split: if_splits)

lemma ok_dispatch: "ok w \<Longrightarrow> ok (snd (dispatch H a w))"
  by (auto simp: dispatch_def split: option.splits dest: ok_h_table)

lemma ok_sweep_all: "ok w \<Longrightarrow> ok (sweep_all w)"
  by (auto simp: sweep_all_def sweep_all_at_def ok_def store_one_kind_def steady_now_def
      intro: one_kind_sweep)

text \<open>
  So a handler that runs with no other handler between its shard operations keeps every
  key in one map (\<open>ok_dispatch\<close>), and so does a tick of the sweeper (\<open>ok_sweep_all\<close>).
  The shard operation \<open>hset\<close> alone does not: on a key that holds a live string it
  creates the hash entry beside the string. It relies on the \<open>type_of\<close> check that the
  handler has made before, in another lock section.
\<close>

lemma hset_beside_string:
  "str_map s key \<noteq> None \<Longrightarrow> \<not> is_expired_unlocked s key now \<Longrightarrow>
   \<not> one_kind (snd (hset s key f v now))"
  by (auto simp: one_kind_def hset_def Let_def)

subsection \<open>SET between the two lock sections of HSET\<close>

text \<open>
  Claim C8 on the code. On the empty store, \<open>HSET k f v\<close> and \<open>SET k x\<close> are dispatched
  on two workers, and \<open>SET\<close> runs after \<open>HSET\<close> has found the type of \<open>k\<close> to be \<open>None\<close> and
  before it calls \<open>hset\<close>. Both commands succeed (\<open>:1\<close> and \<open>+OK\<close>), and afterwards \<open>k\<close> is
  in the string map and in the hash map of its shard at once: the store does not keep
  \<open>k\<close> in one map, while \<open>TYPE k\<close> replies \<open>string\<close>.
\<close>

theorem hset_around_set_both_kinds:
  "fst (h_HSET_around H [''HSET'', ''k'', ''f'', ''v''] [''SET'', ''k'', ''x'']
         \<lparr>store = Store_init 1, clock = (\<lambda>i. 0)\<rparr>) = ('':1'' @ CRLF, ''+OK'' @ CRLF) \<and>
   str_map (shard_for H (store (snd (h_HSET_around H [''HSET'', ''k'', ''f'', ''v''] [''SET'', ''k'', ''x'']
         \<lparr>store = Store_init 1, clock = (\<lambda>i. 0)\<rparr>))) ''k'') ''k'' = Some ''x'' \<and>
   hash_map (shard_for H (store (snd (h_HSET_around H [''HSET'', ''k'', ''f'', ''v''] [''SET'', ''k'', ''x'']
         \<lparr>store = Store_init 1, clock = (\<lambda>i. 0)\<rparr>))) ''k'') ''k'' = Some [(''f'', ''v'')] \<and>
   \<not> store_one_kind (store (snd (h_HSET_around H [''HSET'', ''k'', ''f'', ''v''] [''SET'', ''k'', ''x'']
         \<lparr>store = Store_init 1, clock = (\<lambda>i. 0)\<rparr>))) \<and>
   fst (dispatch H [''TYPE'', ''k''] (snd (h_HSET_around H [''HSET'', ''k'', ''f'', ''v''] [''SET'', ''k'', ''x'']
         \<lparr>store = Store_init 1, clock = (\<lambda>i. 0)\<rparr>))) = ''$6'' @ CRLF @ ''string'' @ CRLF"
proof -
  let ?w = "snd (h_HSET_around H [''HSET'', ''k'', ''f'', ''v''] [''SET'', ''k'', ''x'']
         \<lparr>store = Store_init 1, clock = (\<lambda>i. 0)\<rparr>)"
  have r: "fst (h_HSET_around H [''HSET'', ''k'', ''f'', ''v''] [''SET'', ''k'', ''x'']
         \<lparr>store = Store_init 1, clock = (\<lambda>i. 0)\<rparr>) = ('':1'' @ CRLF, ''+OK'' @ CRLF)"
    by (simp add: h_HSET_around_def router_defs shard_defs h_SET_def Let_def)
  have sh: "shards (store ?w) =
      [\<lparr>str_map = Map.empty(''k'' \<mapsto> ''x''), ttl_map = Map.empty,
        hash_map = Map.empty(''k'' \<mapsto> [(''f'', ''v'')])\<rparr>]"
    by (simp add: h_HSET_around_def router_defs shard_defs h_SET_def Let_def)
  have s: "str_map (shard_for H (store ?w) ''k'') ''k'' = Some ''x''"
    and h: "hash_map (shard_for H (store ?w) ''k'') ''k'' = Some [(''f'', ''v'')]"
    using sh by (simp_all add: shard_for_def shard_index_def)
  have n: "\<not> store_one_kind (store ?w)"
    using sh by (simp add: store_one_kind_def one_kind_def)
  have t: "fst (dispatch H [''TYPE'', ''k''] ?w) = ''$6'' @ CRLF @ ''string'' @ CRLF"
    using sh
    by (simp add: dispatch_def h_table_def upper_def toupper_def char_of_eq_iff h_TYPE_def
        steady_now_def fst_on_shard shard_for_def shard_index_def type_of_def
        is_expired_unlocked_def resp_bulk_def split_def Let_def)
  from r s h n t show ?thesis by simp
qed

theorem hset_around_set_both_kinds_witness:
  "\<not> store_one_kind (store (snd (h_HSET_around (\<lambda>k. 0) [''HSET'', ''k'', ''f'', ''v''] [''SET'', ''k'', ''x'']
         \<lparr>store = Store_init 1, clock = (\<lambda>i. 0)\<rparr>)))"
  using hset_around_set_both_kinds [of "\<lambda>k. 0"] by simp

end
